theory Spec2Isabelle
  imports Main "HOL-Library.Sublist" "HOL-Library.Char_ord" "HOL-Library.List_Lexorder"
    "HOL-Library.AList"
begin

section \<open>Python strings\<close>

text \<open>
  The tagger is Python 2 code working on byte strings. A string is a \<open>char list\<close>;
  the operations below are the built-in string methods the tagger calls, written for the
  arguments it passes (separators and search patterns are non-empty literals, or a
  dataset identifier followed by a dot).
\<close>

datatype error = IndexError | KeyError | ValueError

text \<open>\<open>s.startswith(p)\<close> is \<open>prefix p s\<close>; \<open>p in s\<close> on strings is \<open>contains s p\<close>.\<close>

fun contains :: "string \<Rightarrow> string \<Rightarrow> bool" where
  "contains [] sub = (sub = [])"
| "contains (c # cs) sub = (prefix sub (c # cs) \<or> contains cs sub)"

text \<open>\<open>s.split(sep)\<close>: the pieces between the non-overlapping occurrences of
  \<open>sep\<close>, found left to right. \<open>cur\<close> is the piece being read.\<close>

function split_from :: "string \<Rightarrow> string \<Rightarrow> string \<Rightarrow> string list" where
  "split_from sep cur [] = [cur]"
| "split_from sep cur (c # cs) =
     (if sep \<noteq> [] \<and> prefix sep (c # cs)
      then cur # split_from sep [] (drop (length sep) (c # cs))
      else split_from sep (cur @ [c]) cs)"
  by pat_completeness auto
termination
  by (relation "measure (\<lambda>(sep, cur, s). length s)") (auto simp: neq_Nil_conv)

definition str_split :: "string \<Rightarrow> string \<Rightarrow> string list" where
  "str_split s sep = split_from sep [] s"

text \<open>\<open>s.replace(old, new)\<close>, for a non-empty \<open>old\<close>.\<close>

function str_replace :: "string \<Rightarrow> string \<Rightarrow> string \<Rightarrow> string" where
  "str_replace old new [] = []"
| "str_replace old new (c # cs) =
     (if old \<noteq> [] \<and> prefix old (c # cs)
      then new @ str_replace old new (drop (length old) (c # cs))
      else c # str_replace old new cs)"
  by pat_completeness auto
termination
  by (relation "measure (\<lambda>(old, new, s). length s)") (auto simp: neq_Nil_conv)

text \<open>\<open>s.lower()\<close> on a byte string: the ASCII capitals are replaced.\<close>

definition lower_char :: "char \<Rightarrow> char" where
  "lower_char ch =
     (case map_of (zip ''ABCDEFGHIJKLMNOPQRSTUVWXYZ'' ''abcdefghijklmnopqrstuvwxyz'') ch of
        Some l \<Rightarrow> l
      | None \<Rightarrow> ch)"

definition str_lower :: "string \<Rightarrow> string" where
  "str_lower s = map lower_char s"

text \<open>\<open>s.strip()\<close> on the text of an attribute, which netCDF4 returns as a unicode
  string: the white space removed at both ends is the blank, the controls 0x09 to 0x0D
  and 0x1C to 0x1F, the next line control 0x85 and the no-break space 0xA0.\<close>

definition is_space :: "char \<Rightarrow> bool" where
  "is_space ch = (ch \<in> set [CHR '' '', CHR 0x09, CHR 0x0A, CHR 0x0B, CHR 0x0C, CHR 0x0D,
     CHR 0x1C, CHR 0x1D, CHR 0x1E, CHR 0x1F, CHR 0x85, CHR 0xA0])"

definition str_strip :: "string \<Rightarrow> string" where
  "str_strip s = rev (dropWhile is_space (rev (dropWhile is_space s)))"

text \<open>The double quote of the messages, and \<open>'%s' % x\<close> for an \<open>x\<close> that may be
  \<open>None\<close>.\<close>

definition dq :: string where
  "dq = [CHR 0x22]"

definition str_of_opt :: "string option \<Rightarrow> string" where
  "str_of_opt x = (case x of None \<Rightarrow> ''None'' | Some s \<Rightarrow> s)"

text \<open>\<open>xs[i]\<close> for an index that is not negative.\<close>

definition index :: "'a list \<Rightarrow> nat \<Rightarrow> error + 'a" where
  "index xs i = (if i < length xs then Inr (xs ! i) else Inl IndexError)"

text \<open>\<open>'%s' % n\<close> for a non-negative integer: its decimal digits.\<close>

definition digit_char :: "nat \<Rightarrow> char" where
  "digit_char d = ''0123456789'' ! d"

function str_nat :: "nat \<Rightarrow> string" where
  "str_nat n = (if n < 10 then [digit_char n] else str_nat (n div 10) @ [digit_char (n mod 10)])"
  by pat_completeness auto
termination
  by (relation "measure id") auto

declare str_nat.simps [simp del]

text \<open>Reading decimal digits back; used to show that distinct numbers print differently.\<close>

definition digit_val :: "char \<Rightarrow> nat" where
  "digit_val c = of_char c - 48"

definition nat_of_digits :: "string \<Rightarrow> nat" where
  "nat_of_digits s = foldl (\<lambda>a c. 10 * a + digit_val c) 0 s"

section \<open>Constants, vocabulary and messages\<close>

text \<open>
  The module \<open>cci_tagger.constants\<close> is not among the sources: the facet names it
  defines are taken as a parameter, a record of strings, one field for each name the
  tagger imports.
\<close>

record constants =
  DATA_TYPE :: string
  FREQUENCY :: string
  INSTITUTION :: string
  PLATFORM :: string
  SENSOR :: string
  ECV :: string
  PLATFORM_PROGRAMME :: string
  PLATFORM_GROUP :: string
  PROCESSING_LEVEL :: string
  PRODUCT_STRING :: string
  PRODUCT_VERSION :: string

text \<open>The class attributes of \<open>ProcessDatasets\<close>.\<close>

definition ESACCI :: string where
  "ESACCI = ''ESACCI''"

definition DRS_ESACCI :: string where
  "DRS_ESACCI = ''esacci''"

definition MULTI_SENSOR :: string where
  "MULTI_SENSOR = ''multi-sensor''"

definition MULTI_PLATFORM :: string where
  "MULTI_PLATFORM = ''multi-platform''"

text \<open>
  The class \<open>Facets\<close> (module \<open>cci_tagger.facets\<close>) is not among the sources either,
  and the label queries of \<open>TripleStore\<close> answer from a remote service. Both are taken
  as a parameter: \<open>get_labels\<close> and \<open>get_alt_labels\<close> give, for a facet, the dict from
  a lower-case label to the URI of its term; \<open>get_platforms_programme\<close> and
  \<open>get_programmes_group\<close> are the broader-term lookups, \<open>None\<close> standing for the
  KeyError of a missing entry (the tagger catches it for the second lookup only);
  \<open>get_programme_labels\<close> and \<open>get_group_labels\<close> list the labels of the platform
  programmes and groups; \<open>get_pref_label\<close> and \<open>get_alt_label\<close> are the two label
  queries, whose argument the tagger formats into the query text.
\<close>

record vocab =
  get_labels :: "string \<Rightarrow> (string \<rightharpoonup> string)"
  get_alt_labels :: "string \<Rightarrow> (string \<rightharpoonup> string)"
  get_platforms_programme :: "string \<Rightarrow> string option"
  get_programmes_group :: "string option \<Rightarrow> string option"
  get_programme_labels :: "string list"
  get_group_labels :: "string list"
  get_pref_label :: "string \<Rightarrow> string"
  get_alt_label :: "string \<Rightarrow> string"

text \<open>The three message sets of a \<open>ProcessDatasets\<close> object.\<close>

record tagger_state =
  not_found_messages :: "string set"
  error_messages :: "string set"
  drs_messages :: "string set"

definition add_error :: "string \<Rightarrow> tagger_state \<Rightarrow> tagger_state" where
  "add_error message st = st\<lparr>error_messages := insert message (error_messages st)\<rparr>"

section \<open>Local mappings (mappings.py, LocalFacetMappings)\<close>

text \<open>Each dict is the list of its items, in the order the source writes them.\<close>

definition freq_mapping :: "(string \<times> string) list" where
  "freq_mapping = [(''daily'', ''day'')]"

definition institute_mapping :: "(string \<times> string) list" where
  "institute_mapping =
     [(''DTU Space - Div. of Geodynamics'', ''DTU Space''),
      (''DTU Space - Div. of Geodynamics and NERSC'', ''DTU Space''),
      (''DTU Space - Microwaves and Remote Sensing'', ''DTU Space''),
      (''Deutsches Zentrum fuer Luft- und Raumfahrt (DLR)'',
       ''Deutsches Zentrum fuer Luft- und Raumfahrt''),
      (''ESACCI'', ''ESACCI_SST''),
      (''Plymouth Marine Laboratory Remote Sensing Group'', ''Plymouth Marine Laboratory''),
      (''Royal Netherlands Meteorological Institute (KNMI)'',
       ''Royal Netherlands Meteorological Institute''),
      (''SRON Netherlands Institute for Space Research'',
       ''Netherlands Institute for Space Research''),
      (''University of Leicester (UoL)'', ''University of Leicester'')]"

definition level_mapping :: "(string \<times> string) list" where
  "level_mapping = [(''level-3'', ''l3'')]"

definition platform_mapping :: "(string \<times> string) list" where
  "platform_mapping =
     [(''ERS2'', ''ERS-2''), (''ENV'', ''ENVISAT''), (''EOS-AURA'', ''AURA''),
      (''MetOpA'', ''Metop-A''), (''Nimbus 7'', ''Nimbus-7''),
      (''orbview-2/seastar'', ''orbview-2''), (''SCISAT'', ''SCISAT-1'')]"

definition sensor_mapping :: "(string \<times> string) list" where
  "sensor_mapping =
     [(''AMSR-E'', ''AMSRE''), (''ATSR2'', ''ATSR-2''), (''AVHRR GAC'', ''AVHRR''),
      (''AVHRR_GAC'', ''AVHRR''), (''AVHRR_HRPT'', ''AVHRR''), (''AVHRR_LAC'', ''AVHRR''),
      (''AVHRR_MERGED'', ''AVHRR''), (''GFO'', ''GFO-RA''), (''MERIS_FRS'', ''MERIS''),
      (''MERIS_RR'', ''MERIS''), (''MODIS_MERGED'', ''MODIS''), (''RA2'', ''RA-2''),
      (''SMR_544.6GHz'', ''SMR'')]"

text \<open>\<open>__mappings\<close>, filled by five assignments in this order.\<close>

definition mappings :: "constants \<Rightarrow> string \<rightharpoonup> (string \<times> string) list" where
  "mappings c =
     [FREQUENCY c \<mapsto> freq_mapping, INSTITUTION c \<mapsto> institute_mapping,
      PROCESSING_LEVEL c \<mapsto> level_mapping, PLATFORM c \<mapsto> platform_mapping,
      SENSOR c \<mapsto> sensor_mapping]"

definition get_mapping :: "constants \<Rightarrow> string \<Rightarrow> (string \<times> string) list" where
  "get_mapping c facet = (case mappings c facet of Some m \<Rightarrow> m | None \<Rightarrow> [])"

section \<open>Term lookup (tagger.py, \_convert\_term and \_get\_term\_uri)\<close>

text \<open>The loop of \<open>_convert_term\<close> over the keys of a mapping: the first key whose
  lower-case form is the term decides.\<close>

fun mapped_term :: "string \<Rightarrow> (string \<times> string) list \<Rightarrow> string option" where
  "mapped_term t [] = None"
| "mapped_term t ((key, label) # rest) =
     (if t = str_lower key then Some (str_lower label) else mapped_term t rest)"

definition convert_term :: "constants \<Rightarrow> bool \<Rightarrow> string \<Rightarrow> string \<Rightarrow> string" where
  "convert_term c use_mapping facet t =
     (if use_mapping
      then (case mapped_term (str_lower t) (get_mapping c facet) of
              Some label \<Rightarrow> label
            | None \<Rightarrow> str_lower t)
      else str_lower t)"

text \<open>\<open>_get_term_uri\<close> returns the URI or \<open>None\<close>; \<open>if ds:\<close> holds for a dataset
  name that is given and not empty.\<close>

definition get_term_uri ::
  "constants \<Rightarrow> vocab \<Rightarrow> bool \<Rightarrow> tagger_state \<Rightarrow> string \<Rightarrow> string \<Rightarrow> string option
    \<Rightarrow> string option \<times> tagger_state" where
  "get_term_uri c v use_mapping st facet t ds =
     (let facet_l = str_lower facet;
          term_l = convert_term c use_mapping facet_l t
      in case get_labels v facet_l term_l of
           Some uri \<Rightarrow> (Some uri, st)
         | None \<Rightarrow>
             (case get_alt_labels v facet_l term_l of
                Some uri \<Rightarrow> (Some uri, st)
              | None \<Rightarrow>
                  (let st1 = st\<lparr>not_found_messages :=
                               insert (facet_l @ '': '' @ t) (not_found_messages st)\<rparr>
                   in (None,
                       case ds of
                         None \<Rightarrow> st1
                       | Some d \<Rightarrow>
                           if d = [] then st1
                           else add_error (''ERROR in '' @ d @ '' for '' @ facet_l @
                                  '', invalid value '' @ dq @ t @ dq) st1))))"

section \<open>File names (tagger.py, \_parse\_file\_name)\<close>

text \<open>The report both failing branches of \<open>_parse_file_name\<close> make: a message is
  added unless one for this dataset is there already.\<close>

definition invalid_file_name :: "tagger_state \<Rightarrow> string \<Rightarrow> string \<Rightarrow> tagger_state" where
  "invalid_file_name st ds name =
     (if \<exists>message\<in>error_messages st.
           prefix (''ERROR in '' @ ds @ '', invalid file name format'') message
      then st
      else add_error (''ERROR in '' @ ds @ '', invalid file name format '' @ dq @ name @ dq) st)"

text \<open>Sequencing of steps that may raise: the first exception ends the computation.\<close>

definition bind_result :: "error + 'a \<Rightarrow> ('a \<Rightarrow> error + 'b) \<Rightarrow> error + 'b" where
  "bind_result r f = (case r of Inl e \<Rightarrow> Inl e | Inr x \<Rightarrow> f x)"

text \<open>The two forms. The indices may be out of range, as may index 1 of the pieces of
  segment 2.\<close>

definition get_data_from_file_name_1 :: "constants \<Rightarrow> string list \<Rightarrow> error + (string \<rightharpoonup> string)" where
  "get_data_from_file_name_1 c file_segments =
     bind_result (index file_segments 2) (\<lambda>seg2.
     bind_result (index (str_split seg2 ''_'') 0) (\<lambda>level.
     bind_result (index (str_split seg2 ''_'') 1) (\<lambda>ecv.
     bind_result (index file_segments 3) (\<lambda>seg3.
     bind_result (index file_segments 4) (\<lambda>seg4.
       Inr [PROCESSING_LEVEL c \<mapsto> level, ECV c \<mapsto> ecv, DATA_TYPE c \<mapsto> seg3,
            PRODUCT_STRING c \<mapsto> seg4])))))"

definition get_data_from_file_name_2 :: "constants \<Rightarrow> string list \<Rightarrow> error + (string \<rightharpoonup> string)" where
  "get_data_from_file_name_2 c file_segments =
     bind_result (index file_segments 2) (\<lambda>seg2.
     bind_result (index file_segments 1) (\<lambda>seg1.
     bind_result (index file_segments 3) (\<lambda>seg3.
     bind_result (index file_segments 4) (\<lambda>seg4.
       Inr [PROCESSING_LEVEL c \<mapsto> seg2, ECV c \<mapsto> seg1, DATA_TYPE c \<mapsto> seg3,
            PRODUCT_STRING c \<mapsto> seg4]))))"

text \<open>\<open>_create_drs_record\<close>: the labels of the four terms, those that are not empty.\<close>

definition create_drs_record :: "constants \<Rightarrow> vocab \<Rightarrow> (string \<rightharpoonup> string) \<Rightarrow> (string \<rightharpoonup> string)" where
  "create_drs_record c v csv_rec =
     (let proc_lev_label = get_alt_label v (str_of_opt (csv_rec (PROCESSING_LEVEL c)));
          project_label = get_alt_label v (str_of_opt (csv_rec (ECV c)));
          data_type_label = get_alt_label v (str_of_opt (csv_rec (DATA_TYPE c)));
          product_label = get_pref_label v (str_of_opt (csv_rec (PRODUCT_STRING c)));
          drs1 = (if project_label \<noteq> [] then [ECV c \<mapsto> project_label] else Map.empty);
          drs2 = (if proc_lev_label \<noteq> [] then drs1(PROCESSING_LEVEL c \<mapsto> proc_lev_label) else drs1);
          drs3 = (if data_type_label \<noteq> [] then drs2(DATA_TYPE c \<mapsto> data_type_label) else drs2)
      in if product_label \<noteq> [] then drs3(PRODUCT_STRING c \<mapsto> product_label) else drs3)"

text \<open>One of the four steps of \<open>_process_form\<close>: \<open>form[facet]\<close> is looked up in the
  vocabulary and a term that is found is stored in \<open>csv_rec\<close>.\<close>

definition form_term ::
  "constants \<Rightarrow> vocab \<Rightarrow> bool \<Rightarrow> string \<Rightarrow> (string \<rightharpoonup> string) \<Rightarrow> string
    \<Rightarrow> (string \<rightharpoonup> string) \<times> tagger_state \<Rightarrow> error + (string \<rightharpoonup> string) \<times> tagger_state" where
  "form_term c v use_mapping ds form facet acc =
     (case form facet of
        None \<Rightarrow> Inl KeyError
      | Some raw \<Rightarrow>
          (case get_term_uri c v use_mapping (snd acc) facet raw (Some ds) of
             (None, st1) \<Rightarrow> Inr (fst acc, st1)
           | (Some uri, st1) \<Rightarrow> Inr ((fst acc)(facet \<mapsto> uri), st1)))"

definition process_form ::
  "constants \<Rightarrow> vocab \<Rightarrow> bool \<Rightarrow> tagger_state \<Rightarrow> string \<Rightarrow> (string \<rightharpoonup> string)
    \<Rightarrow> error + ((string \<rightharpoonup> string) \<times> (string \<rightharpoonup> string)) \<times> tagger_state" where
  "process_form c v use_mapping st ds form =
     bind_result (form_term c v use_mapping ds form (PROCESSING_LEVEL c) (Map.empty, st)) (\<lambda>a1.
     bind_result (form_term c v use_mapping ds form (ECV c) a1) (\<lambda>a2.
     bind_result (form_term c v use_mapping ds form (DATA_TYPE c) a2) (\<lambda>a3.
     bind_result (form_term c v use_mapping ds form (PRODUCT_STRING c) a3) (\<lambda>a4.
       Inr ((create_drs_record c v (fst a4), fst a4), snd a4)))))"

text \<open>\<open>_parse_file_name\<close>. Splitting never gives an empty list, so the last piece of
  the path exists; segments 0 and 1 are read after the length test.\<close>

definition parse_file_name ::
  "constants \<Rightarrow> vocab \<Rightarrow> bool \<Rightarrow> tagger_state \<Rightarrow> string \<Rightarrow> string
    \<Rightarrow> error + ((string \<rightharpoonup> string) \<times> (string \<rightharpoonup> string)) \<times> tagger_state" where
  "parse_file_name c v use_mapping st ds fpath =
     (let path_facet_bits = str_split fpath ''/'';
          last_bit = length path_facet_bits - 1;
          file_segments = str_split (path_facet_bits ! last_bit) ''-''
      in if length file_segments < 5
         then Inr ((Map.empty, Map.empty), invalid_file_name st ds (path_facet_bits ! last_bit))
         else if file_segments ! 1 = ESACCI
         then bind_result (get_data_from_file_name_1 c file_segments)
                (process_form c v use_mapping st ds)
         else if file_segments ! 0 = ESACCI
         then bind_result (get_data_from_file_name_2 c file_segments)
                (process_form c v use_mapping st ds)
         else Inr ((Map.empty, Map.empty), invalid_file_name st ds (path_facet_bits ! last_bit)))"

section \<open>File attributes (tagger.py, \_process\_file\_atrib)\<close>

text \<open>\<open>bit.split('(', 1)[1]\<close>: what follows the first opening parenthesis; IndexError
  when there is none.\<close>

definition after_paren :: "string \<Rightarrow> error + string" where
  "after_paren abit =
     (if CHR ''('' \<in> set abit then Inr (tl (dropWhile (\<lambda>ch. ch \<noteq> CHR ''('') abit))
      else Inl IndexError)"

text \<open>The loop that rewrites an attribute with parentheses, over the pieces of
  \<open>attr.split(')')\<close>.\<close>

fun paren_groups :: "string list \<Rightarrow> bool \<Rightarrow> string \<Rightarrow> error + string" where
  "paren_groups [] first tmp_attr = Inr tmp_attr"
| "paren_groups (abit # rest) first tmp_attr =
     (if abit = [] then paren_groups rest first tmp_attr
      else bind_result (after_paren abit) (\<lambda>inner.
             if first then paren_groups rest False (tmp_attr @ inner)
             else paren_groups rest False (tmp_attr @ '','' @ inner)))"

text \<open>\<open>if x in bits: bits.remove(x); bits.extend(ys)\<close>.\<close>

definition expand_bit :: "string \<Rightarrow> string list \<Rightarrow> string list \<Rightarrow> string list" where
  "expand_bit x ys bits = (if x \<in> set bits then remove1 x bits @ ys else bits)"

text \<open>The first part of \<open>_process_file_atrib\<close>, up to the loop over the bits: the
  attribute as rewritten, and its bits. \<open>bits.remove(' UK')\<close> raises ValueError when
  the bit is not there.\<close>

definition attrib_bits :: "constants \<Rightarrow> bool \<Rightarrow> string \<Rightarrow> string \<Rightarrow> error + string \<times> string list" where
  "attrib_bits c use_mapping global_attr attr =
     bind_result
       (if use_mapping
        then bind_result
               (if global_attr \<noteq> INSTITUTION c \<and> CHR ''('' \<in> set attr
                then paren_groups (str_split attr '')'') True []
                else Inr attr)
               (\<lambda>a. Inr (str_replace ''merged: '' [] a))
        else Inr attr)
       (\<lambda>attr1.
          let bits0 = (if CHR ''<'' \<in> set attr1 then str_split attr1 '', ''
                       else str_split attr1 '','');
              bits1 = (if global_attr = PLATFORM c
                       then expand_bit ''ERS-<1,2>'' [''ERS-1'', ''ERS-2'']
                              (expand_bit ''NOAA-<12,14,15,16,17,18>''
                                 [''NOAA-12'', ''NOAA-14'', ''NOAA-15'', ''NOAA-16'', ''NOAA-17'',
                                  ''NOAA-18''] bits0)
                       else bits0);
              bits2 = (if use_mapping \<and> global_attr = SENSOR c
                       then expand_bit '' OMI and GOME-2.'' [''OMI'', ''GOME-2'']
                              (expand_bit ''MERISAATSR'' [''MERIS'', ''AATSR''] bits1)
                       else bits1)
          in if use_mapping \<and> global_attr = INSTITUTION c \<and>
                (contains attr1 ''University of Leicester (UoL), UK'' \<or>
                 contains attr1 ''University of Leicester, UK'')
             then (if '' UK'' \<in> set bits2 then Inr (attr1, remove1 '' UK'' bits2)
                   else Inl ValueError)
             else Inr (attr1, bits2))"

text \<open>\<open>_get_programme_group\<close> and \<open>_get_paltform_as_programme\<close>: lists of URIs, an
  entry being \<open>None\<close> when \<open>_get_term_uri\<close> found no term.\<close>

definition programmes_group_tags ::
  "constants \<Rightarrow> vocab \<Rightarrow> bool \<Rightarrow> tagger_state \<Rightarrow> string option
    \<Rightarrow> string option list \<times> tagger_state" where
  "programmes_group_tags c v use_mapping st programme_uri =
     (case get_programmes_group v programme_uri of
        None \<Rightarrow> ([programme_uri], st)
      | Some grp \<Rightarrow>
          (case get_term_uri c v use_mapping st (PLATFORM_GROUP c) grp None of
             (group_uri, st1) \<Rightarrow> ([programme_uri, group_uri], st1)))"

definition get_programme_group ::
  "constants \<Rightarrow> vocab \<Rightarrow> bool \<Rightarrow> tagger_state \<Rightarrow> string
    \<Rightarrow> error + string option list \<times> tagger_state" where
  "get_programme_group c v use_mapping st term_uri =
     (case get_platforms_programme v term_uri of
        None \<Rightarrow> Inl KeyError
      | Some programme \<Rightarrow>
          (case get_term_uri c v use_mapping st (PLATFORM_PROGRAMME c) programme None of
             (programme_uri, st1) \<Rightarrow> Inr (programmes_group_tags c v use_mapping st1 programme_uri)))"

definition get_paltform_as_programme ::
  "constants \<Rightarrow> vocab \<Rightarrow> bool \<Rightarrow> tagger_state \<Rightarrow> string \<Rightarrow> string option list \<times> tagger_state" where
  "get_paltform_as_programme c v use_mapping st platform =
     (if platform \<in> set (get_programme_labels v)
      then (case get_term_uri c v use_mapping st (PLATFORM_PROGRAMME c) platform None of
              (programme_uri, st1) \<Rightarrow> programmes_group_tags c v use_mapping st1 programme_uri)
      else if platform \<in> set (get_group_labels v)
      then (case get_term_uri c v use_mapping st (PLATFORM_GROUP c) platform None of
              (group_uri, st1) \<Rightarrow> ([group_uri], st1))
      else ([], st))"

text \<open>\<open>for tag in p: tags[key].add(tag)\<close>; the lookup raises KeyError when the key is
  missing and there is a tag to add.\<close>

definition add_tags ::
  "string \<Rightarrow> string option list \<Rightarrow> (string \<rightharpoonup> string option set)
    \<Rightarrow> error + (string \<rightharpoonup> string option set)" where
  "add_tags key p tags =
     (if p = [] then Inr tags
      else case tags key of
             None \<Rightarrow> Inl KeyError
           | Some s \<Rightarrow> Inr (tags(key \<mapsto> s \<union> set p)))"

text \<open>One round of the loop over the bits, on \<open>drs\<close>, \<open>tags\<close>, \<open>term_count\<close> and the
  messages. The dict \<open>drs\<close> is the list of its items, so that \<open>drs == {}\<close> can be
  tested; \<open>drs[k] = x\<close> is \<open>AList.update k x drs\<close>.\<close>

type_synonym atrib_acc =
  "(string \<times> string) list \<times> (string \<rightharpoonup> string option set) \<times> nat \<times> tagger_state"

definition resolve_bit ::
  "constants \<Rightarrow> vocab \<Rightarrow> bool \<Rightarrow> string \<Rightarrow> string \<Rightarrow> atrib_acc \<Rightarrow> error + atrib_acc" where
  "resolve_bit c v use_mapping global_attr abit acc =
     (case acc of (drs, tags, term_count, st) \<Rightarrow>
        (case get_term_uri c v use_mapping st global_attr (str_strip abit) None of
           (Some term_uri, st1) \<Rightarrow>
             bind_result
               (add_tags global_attr [Some term_uri]
                  (if term_count = 0 then tags(global_attr \<mapsto> {}) else tags))
               (\<lambda>tags1.
                  if global_attr = PLATFORM c
                  then bind_result (get_programme_group c v use_mapping st1 term_uri) (\<lambda>(p, st2).
                       bind_result (add_tags global_attr p tags1) (\<lambda>tags2.
                         Inr (AList.update global_attr (get_pref_label v term_uri) drs, tags2,
                              term_count + 1, st2)))
                  else Inr (AList.update global_attr (get_pref_label v term_uri) drs, tags1,
                            term_count + 1, st1))
         | (None, st1) \<Rightarrow>
             if global_attr = PLATFORM c
             then (case get_paltform_as_programme c v use_mapping st1 (str_strip abit) of
                     (p_tags, st2) \<Rightarrow>
                       if length p_tags > 0 \<and> term_count = 0
                       then bind_result (add_tags (PLATFORM c) p_tags (tags(PLATFORM c \<mapsto> {})))
                              (\<lambda>tags1. Inr (drs, tags1, term_count + 2, st2))
                       else bind_result (add_tags (PLATFORM c) p_tags tags)
                              (\<lambda>tags1. Inr (drs, tags1, term_count, st2)))
             else Inr (drs, tags, term_count, st1)))"

fun resolve_bits ::
  "constants \<Rightarrow> vocab \<Rightarrow> bool \<Rightarrow> string \<Rightarrow> string list \<Rightarrow> atrib_acc \<Rightarrow> error + atrib_acc" where
  "resolve_bits c v use_mapping global_attr [] acc = Inr acc"
| "resolve_bits c v use_mapping global_attr (abit # bits) acc =
     bind_result (resolve_bit c v use_mapping global_attr abit acc)
       (resolve_bits c v use_mapping global_attr bits)"

text \<open>\<open>_process_file_atrib\<close>: the bits are resolved from empty dicts and a count of 0;
  a count above 1 replaces the label of a sensor or platform; an empty \<open>drs\<close> is
  reported.\<close>

definition process_file_atrib ::
  "constants \<Rightarrow> vocab \<Rightarrow> bool \<Rightarrow> tagger_state \<Rightarrow> string \<Rightarrow> string \<Rightarrow> string
    \<Rightarrow> error + ((string \<rightharpoonup> string) \<times> (string \<rightharpoonup> string option set)) \<times> tagger_state" where
  "process_file_atrib c v use_mapping st global_attr attr ds =
     bind_result (attrib_bits c use_mapping global_attr attr) (\<lambda>(attr1, bits).
     bind_result (resolve_bits c v use_mapping global_attr bits ([], Map.empty, 0, st))
       (\<lambda>(drs, tags, term_count, st1).
          let drs1 = (if term_count > 1 \<and> global_attr = SENSOR c
                      then AList.update global_attr MULTI_SENSOR drs
                      else if term_count > 1 \<and> global_attr = PLATFORM c
                      then AList.update global_attr MULTI_PLATFORM drs
                      else drs)
          in Inr ((map_of drs1, tags),
                  if drs1 = []
                  then add_error (''ERROR in '' @ ds @ '' for '' @ global_attr @
                         '', invalid value '' @ dq @ attr1 @ dq) st1
                  else st1)))"

section \<open>Identifier stems (tagger.py, \_generate\_ds\_id)\<close>

text \<open>The report both failing branches make: \<open>value not found\<close> is added unless an
  \<open>invalid value\<close> message for this dataset and facet is there already.\<close>

definition value_not_found :: "string \<Rightarrow> string \<Rightarrow> tagger_state \<Rightarrow> tagger_state" where
  "value_not_found ds facet st =
     (if \<exists>message\<in>error_messages st.
           prefix (''ERROR in '' @ ds @ '' for '' @ facet @ '', invalid value'') message
      then st
      else add_error (''ERROR in '' @ ds @ '' for '' @ facet @ '', value not found'') st)"

text \<open>The value of a facet as it enters the identifier.\<close>

definition facet_value :: "constants \<Rightarrow> string \<Rightarrow> string \<Rightarrow> string" where
  "facet_value c facet x =
     (let y = str_replace '' '' ''-'' (str_replace ''.'' ''-'' x)
      in if facet = FREQUENCY c
         then str_replace ''year'' ''yr'' (str_replace ''month'' ''mon'' y)
         else y)"

text \<open>One round of the loop over the facets, on \<open>error\<close>, \<open>ds_id\<close> and the messages:
  a missing key (KeyError) and an empty value are treated alike.\<close>

definition ds_id_step ::
  "constants \<Rightarrow> string \<Rightarrow> (string \<rightharpoonup> string) \<Rightarrow> string
    \<Rightarrow> bool \<times> string \<times> tagger_state \<Rightarrow> bool \<times> string \<times> tagger_state" where
  "ds_id_step c ds drs_ds facet acc =
     (case acc of (err, ds_id, st) \<Rightarrow>
        (case drs_ds facet of
           None \<Rightarrow> (True, ds_id, value_not_found ds facet st)
         | Some x \<Rightarrow>
             if x = [] then (True, ds_id, value_not_found ds facet st)
             else (err, ds_id @ ''.'' @ facet_value c facet x, st)))"

definition ds_id_facets :: "constants \<Rightarrow> string list" where
  "ds_id_facets c =
     [ECV c, FREQUENCY c, PROCESSING_LEVEL c, DATA_TYPE c, SENSOR c, PLATFORM c,
      PRODUCT_STRING c, PRODUCT_VERSION c]"

definition generate_ds_id ::
  "constants \<Rightarrow> tagger_state \<Rightarrow> string \<Rightarrow> (string \<rightharpoonup> string) \<Rightarrow> string option \<times> tagger_state" where
  "generate_ds_id c st ds drs_ds =
     (case foldl (\<lambda>acc facet. ds_id_step c ds drs_ds facet acc) (False, DRS_ESACCI, st)
             (ds_id_facets c) of
        (err, ds_id, st1) \<Rightarrow> (if err then None else Some ds_id, st1))"

section \<open>The historical identifier store (mappings.py, DRS\_Mapping)\<close>

text \<open>
  \<open>DRS_Mapping\<close> holds \<open>__ds_drs\<close>, a dict from a dataset path to the set of
  identifiers recorded for it (here the list of its items), and \<open>__drs\<close>, the list
  of all recorded identifiers.
  \<open>_get_next_realization\<close> iterates over one of these sets; Python fixes the order by
  the hashes of the elements, so a set is given here as the list of its elements in the
  order the iteration visits them.
\<close>

record drs_mapping =
  ds_drs :: "(string \<times> string list) list"
  all_drs :: "string list"

text \<open>\<open>get_drs(ds)\<close> with a dataset, and \<open>get_drs()\<close> without.\<close>

definition get_drs :: "drs_mapping \<Rightarrow> string \<Rightarrow> string list option" where
  "get_drs m ds = map_of (ds_drs m) ds"

definition get_drs_all :: "drs_mapping \<Rightarrow> string list" where
  "get_drs_all m = all_drs m"

section \<open>Realization allocation (tagger.py, \_get\_next\_realization)\<close>

text \<open>
  The first loop: the first recorded identifier \<open>e_drs\<close> with
  \<open>e_drs.startswith(drs_id)\<close> decides, by \<open>e_drs.split(drs_id + '.')[1]\<close>;
  the index raises IndexError when the split has a single piece. \<open>None\<close> when no
  recorded identifier starts with \<open>drs_id\<close> (the loop falls through).
\<close>

fun existing_realization :: "string \<Rightarrow> string list \<Rightarrow> (error + string) option" where
  "existing_realization drs_id [] = None"
| "existing_realization drs_id (e_drs # rest) =
     (if prefix drs_id e_drs
      then (case str_split e_drs (drs_id @ ''.'') of
              _ # r # _ \<Rightarrow> Some (Inr r)
            | _ \<Rightarrow> Some (Inl IndexError))
      else existing_realization drs_id rest)"

text \<open>The identifier tried in round \<open>realization_no\<close> of the second loop.\<close>

definition ds_id_r :: "string \<Rightarrow> nat \<Rightarrow> string" where
  "ds_id_r drs_id realization_no = drs_id @ ''.r'' @ str_nat realization_no"

lemma digit_table: "list_all (\<lambda>d. digit_val (digit_char d) = d) [0..<10]"
  by code_simp

lemma digit_val_digit_char: "d < 10 \<Longrightarrow> digit_val (digit_char d) = d"
  using digit_table by (simp add: list_all_iff)

lemma nat_of_digits_snoc: "nat_of_digits (s @ [c]) = 10 * nat_of_digits s + digit_val c"
  by (simp add: nat_of_digits_def)

lemma nat_of_digits_str_nat: "nat_of_digits (str_nat n) = n"
proof (induction n rule: str_nat.induct)
  case (1 n)
  show ?case
  proof (cases "n < 10")
    case True
    then show ?thesis
      by (subst str_nat.simps)
        (simp add: nat_of_digits_def digit_val_digit_char)
  next
    case False
    have "nat_of_digits (str_nat n) =
        10 * nat_of_digits (str_nat (n div 10)) + digit_val (digit_char (n mod 10))"
      using False
      by (subst str_nat.simps) (simp add: nat_of_digits_snoc)
    also have "\<dots> = 10 * (n div 10) + n mod 10"
      using 1 False by (simp add: digit_val_digit_char)
    finally show ?thesis by simp
  qed
qed

lemma str_nat_inj: "str_nat m = str_nat n \<Longrightarrow> m = n"
  by (metis nat_of_digits_str_nat)

lemma ds_id_r_inj: "ds_id_r drs_id m = ds_id_r drs_id n \<Longrightarrow> m = n"
  by (simp add: ds_id_r_def str_nat_inj)

lemma finite_taken: "finite {k. ds_id_r drs_id k \<in> set xs}"
proof -
  have "inj (ds_id_r drs_id)"
    by (rule injI) (rule ds_id_r_inj)
  then have "finite (ds_id_r drs_id -` set xs)"
    by (intro finite_vimageI) simp_all
  then show ?thesis
    by (simp add: vimage_def)
qed

text \<open>
  The second loop, \<open>while True\<close>: \<open>known\<close> is \<open>get_drs()\<close>, the list of all recorded
  identifiers, and \<open>keys\<close> is \<open>drs.keys()\<close>, the identifiers given out in this run.
  Both are finite lists and distinct numbers give distinct identifiers, so the rounds
  that find their identifier taken are bounded; this is the termination argument.
\<close>

function realization_scan :: "string list \<Rightarrow> string list \<Rightarrow> string \<Rightarrow> nat \<Rightarrow> string" where
  "realization_scan known keys drs_id realization_no =
     (if ds_id_r drs_id realization_no \<notin> set known \<and> ds_id_r drs_id realization_no \<notin> set keys
      then ''r'' @ str_nat realization_no
      else realization_scan known keys drs_id (realization_no + 1))"
  by pat_completeness auto
termination
proof (relation "measure (\<lambda>(known, keys, drs_id, n).
    card {k. n \<le> k \<and> ds_id_r drs_id k \<in> set (known @ keys)})")
  show "wf (measure (\<lambda>(known, keys, drs_id, n).
      card {k. n \<le> k \<and> ds_id_r drs_id k \<in> set (known @ keys)}))"
    by simp
next
  fix known keys :: "string list" and drs_id :: string and realization_no :: nat
  assume a: "\<not> (ds_id_r drs_id realization_no \<notin> set known \<and>
    ds_id_r drs_id realization_no \<notin> set keys)"
  let ?A = "\<lambda>n. {k. n \<le> k \<and> ds_id_r drs_id k \<in> set (known @ keys)}"
  have fin: "finite (?A realization_no)"
    using finite_taken [of drs_id "known @ keys"] by (rule rev_finite_subset) auto
  have sub: "?A (realization_no + 1) \<subseteq> ?A realization_no"
    by auto
  have mem: "realization_no \<in> ?A realization_no"
    using a by auto
  have nmem: "realization_no \<notin> ?A (realization_no + 1)"
    by simp
  from sub mem nmem have "?A (realization_no + 1) \<subset> ?A realization_no"
    by blast
  then have "card (?A (realization_no + 1)) < card (?A realization_no)"
    using fin by (rule psubset_card_mono [rotated])
  then show "((known, keys, drs_id, realization_no + 1), (known, keys, drs_id, realization_no))
      \<in> measure (\<lambda>(known, keys, drs_id, n).
        card {k. n \<le> k \<and> ds_id_r drs_id k \<in> set (known @ keys)})"
    by simp
qed

declare realization_scan.simps [simp del]

text \<open>
  \<open>drs\<close>, the dict from an identifier to the files that carry it, is an association
  list; an entry is \<open>{'file': fpath, 'sha256': sha256}\<close> or \<open>{'file': fpath}\<close>.
  \<open>if existing_drs:\<close> skips the first loop for \<open>None\<close> and for the empty set.
\<close>

record file_entry =
  entry_file :: string
  entry_sha256 :: "string option"

type_synonym drs_table = "(string \<times> file_entry list) list"

definition get_next_realization :: "drs_mapping \<Rightarrow> string \<Rightarrow> string \<Rightarrow> drs_table \<Rightarrow> error + string" where
  "get_next_realization m ds drs_id drs =
     (case existing_realization drs_id
             (case get_drs m ds of None \<Rightarrow> [] | Some existing_drs \<Rightarrow> existing_drs) of
        Some r \<Rightarrow> r
      | None \<Rightarrow> Inr (realization_scan (get_drs_all m) (map fst drs) drs_id 1))"

section \<open>Files of a dataset (tagger.py, \_get\_nc\_files and \_scan\_net\_cdf\_file)\<close>

text \<open>
  What the tagger reads from outside is a parameter: \<open>walk\<close> gives, for a directory,
  the pairs of a directory and its file names that \<open>os.walk\<close> yields, in its order;
  \<open>open_nc\<close> gives the content of a netCDF file, \<open>None\<close> when opening it raises;
  \<open>file_sha256\<close> is the digest of a file. Of a netCDF file the tagger reads the global
  attributes, and the attributes of each variable.
\<close>

record nc_dataset =
  ncattrs :: "(string \<times> string) list"
  variables :: "(string \<times> (string \<times> string) list) list"

record world =
  walk :: "string \<Rightarrow> (string \<times> string list) list"
  open_nc :: "string \<Rightarrow> nc_dataset option"
  file_sha256 :: "string \<Rightarrow> string"

text \<open>\<open>os.path.join(root, name)\<close>.\<close>

definition path_join :: "string \<Rightarrow> string \<Rightarrow> string" where
  "path_join root name =
     (if prefix ''/'' name then name
      else if root = [] \<or> suffix ''/'' root then root @ name
      else root @ ''/'' @ name)"

text \<open>The inner loop of \<open>_get_nc_files\<close> over the names of one directory, on
  \<open>file_list\<close> and \<open>count\<close>; the flag tells that the function returned from inside
  the loop.\<close>

fun nc_files_in ::
  "string \<Rightarrow> string list \<Rightarrow> int \<Rightarrow> string list \<times> int \<Rightarrow> (string list \<times> int) \<times> bool" where
  "nc_files_in root [] max_file_count acc = (acc, False)"
| "nc_files_in root (name # names) max_file_count acc =
     (if suffix ''.nc'' name
      then (if max_file_count > 0 \<and> snd acc + 1 > max_file_count
            then ((fst acc @ [path_join root name], snd acc + 1), True)
            else nc_files_in root names max_file_count
                   (fst acc @ [path_join root name], snd acc + 1))
      else nc_files_in root names max_file_count acc)"

fun nc_files_walk :: "(string \<times> string list) list \<Rightarrow> int \<Rightarrow> string list \<times> int \<Rightarrow> string list" where
  "nc_files_walk [] max_file_count acc = fst acc"
| "nc_files_walk (dir # dirs) max_file_count acc =
     (case nc_files_in (fst dir) (snd dir) max_file_count acc of
        (acc1, returned) \<Rightarrow>
          if returned then fst acc1 else nc_files_walk dirs max_file_count acc1)"

definition get_nc_files :: "world \<Rightarrow> string \<Rightarrow> int \<Rightarrow> string list" where
  "get_nc_files w dir max_file_count = nc_files_walk (walk w dir) max_file_count ([], 1)"

text \<open>The values of \<open>tags\<close>: the URI of one term (or the product version as it is),
  or a set of URIs.\<close>

datatype tag_value = Single string | Multi "string option set"

text \<open>One round of the loop of \<open>_scan_net_cdf_file\<close> over the global attributes, given
  as pairs of a name and its value.\<close>

definition allowed_net_cdf_attribs :: "constants \<Rightarrow> string list" where
  "allowed_net_cdf_attribs c = [FREQUENCY c, INSTITUTION c, PLATFORM c, SENSOR c]"

type_synonym scan_acc = "((string \<rightharpoonup> string) \<times> (string \<rightharpoonup> tag_value)) \<times> tagger_state"

definition scan_global_attr ::
  "constants \<Rightarrow> vocab \<Rightarrow> bool \<Rightarrow> string \<Rightarrow> string \<times> string \<Rightarrow> scan_acc \<Rightarrow> error + scan_acc" where
  "scan_global_attr c v use_mapping ds global_attr acc =
     (case acc of ((drs, tags), st) \<Rightarrow>
        if str_lower (fst global_attr) \<in> set (allowed_net_cdf_attribs c)
        then bind_result
               (process_file_atrib c v use_mapping st (str_lower (fst global_attr))
                  (snd global_attr) ds)
               (\<lambda>((a_drs, a_tags), st1).
                  Inr ((drs ++ a_drs, tags ++ (map_option Multi \<circ> a_tags)), st1))
        else if str_lower (fst global_attr) = PRODUCT_VERSION c
        then Inr ((drs(PRODUCT_VERSION c \<mapsto> snd global_attr),
                   tags(PRODUCT_VERSION c \<mapsto> Single (snd global_attr))), st)
        else Inr acc)"

fun scan_global_attrs ::
  "constants \<Rightarrow> vocab \<Rightarrow> bool \<Rightarrow> string \<Rightarrow> (string \<times> string) list \<Rightarrow> scan_acc \<Rightarrow> error + scan_acc" where
  "scan_global_attrs c v use_mapping ds [] acc = Inr acc"
| "scan_global_attrs c v use_mapping ds (global_attr # rest) acc =
     bind_result (scan_global_attr c v use_mapping ds global_attr acc)
       (scan_global_attrs c v use_mapping ds rest)"

text \<open>The loop over the variables: a \<open>long_name\<close> of length 0 is reported.\<close>

definition long_name_check :: "string \<Rightarrow> nc_dataset \<Rightarrow> tagger_state \<Rightarrow> tagger_state" where
  "long_name_check ds nc st =
     (if \<exists>var\<in>set (variables nc). \<exists>attr\<in>set (snd var).
           str_lower (fst attr) = ''long_name'' \<and> length (snd attr) = 0
      then add_error (''WARNING in '' @ ds @ '', long_name value has zero length'') st
      else st)"

definition scan_net_cdf_file ::
  "world \<Rightarrow> constants \<Rightarrow> vocab \<Rightarrow> bool \<Rightarrow> tagger_state \<Rightarrow> string \<Rightarrow> string \<Rightarrow> error + scan_acc" where
  "scan_net_cdf_file w c v use_mapping st fpath ds =
     (case open_nc w fpath of
        None \<Rightarrow>
          Inr ((Map.empty, Map.empty),
               add_error (''ERROR in '' @ ds @ '', extracting attributes from '' @ dq @ fpath @ dq) st)
      | Some nc \<Rightarrow>
          bind_result (scan_global_attrs c v use_mapping ds (ncattrs nc) ((Map.empty, Map.empty), st))
            (\<lambda>(r, st1). Inr (r, long_name_check ds nc st1)))"

section \<open>Datasets (tagger.py, \_process\_dataset and process\_datasets)\<close>

text \<open>\<open>drs[dataset_id].append(entry)\<close> for a key of \<open>drs\<close>, and
  \<open>drs[dataset_id] = [entry]\<close> for a new one.\<close>

definition drs_add :: "string \<Rightarrow> file_entry \<Rightarrow> drs_table \<Rightarrow> drs_table" where
  "drs_add dataset_id entry drs =
     (if dataset_id \<in> set (map fst drs)
      then map (\<lambda>item. if fst item = dataset_id then (fst item, snd item @ [entry]) else item) drs
      else drs @ [(dataset_id, [entry])])"

text \<open>
  What the parts of the tagger share: the parameters (\<open>checksum\<close> and \<open>use_mapping\<close>
  are the options of the object) and the store read at the start.
\<close>

record tagger =
  t_world :: world
  t_constants :: constants
  t_vocab :: vocab
  t_checksum :: bool
  t_use_mapping :: bool
  t_drs_mapping :: drs_mapping

text \<open>
  One round of the loop of \<open>_process_dataset\<close> over the files, on \<open>tags_ds\<close>,
  \<open>drs_count\<close>, \<open>current_drs_ids\<close>, \<open>drs\<close> and the messages. A file without an
  identifier is skipped after its tags are merged.
\<close>

type_synonym file_acc =
  "(string \<rightharpoonup> tag_value) \<times> nat \<times> (string \<rightharpoonup> string) \<times> drs_table \<times> tagger_state"

definition assign_realization ::
  "tagger \<Rightarrow> string \<Rightarrow> string \<Rightarrow> (string \<rightharpoonup> string) \<Rightarrow> drs_table \<Rightarrow> tagger_state
    \<Rightarrow> error + (string \<rightharpoonup> string) \<times> string \<times> tagger_state" where
  "assign_realization t ds dataset_id current_drs_ids drs st =
     (case current_drs_ids dataset_id of
        None \<Rightarrow>
          bind_result (get_next_realization (t_drs_mapping t) ds dataset_id drs) (\<lambda>r.
            Inr (current_drs_ids(dataset_id \<mapsto> r), dataset_id @ ''.'' @ r,
                 st\<lparr>drs_messages := insert (ds @ '','' @ dataset_id @ ''.'' @ r) (drs_messages st)\<rparr>))
      | Some r \<Rightarrow> Inr (current_drs_ids, dataset_id @ ''.'' @ r, st))"

definition process_file :: "tagger \<Rightarrow> string \<Rightarrow> string \<Rightarrow> file_acc \<Rightarrow> error + file_acc" where
  "process_file t ds fpath acc =
     (case acc of (tags_ds, drs_count, current_drs_ids, drs, st) \<Rightarrow>
        bind_result
          (parse_file_name (t_constants t) (t_vocab t) (t_use_mapping t) st ds fpath)
          (\<lambda>((name_drs, name_tags), st1).
        bind_result
          (scan_net_cdf_file (t_world t) (t_constants t) (t_vocab t) (t_use_mapping t) st1 fpath ds)
          (\<lambda>((net_cdf_drs, net_cdf_tags), st2).
             let tags_ds1 = (tags_ds ++ (map_option Single \<circ> name_tags)) ++ net_cdf_tags
             in case generate_ds_id (t_constants t) st2 ds (name_drs ++ net_cdf_drs) of
                  (None, st3) \<Rightarrow> Inr (tags_ds1, drs_count, current_drs_ids, drs, st3)
                | (Some dataset_id, st3) \<Rightarrow>
                    bind_result (assign_realization t ds dataset_id current_drs_ids drs st3)
                      (\<lambda>(current1, full_id, st4).
                         Inr (tags_ds1,
                              if full_id \<in> set (map fst drs) then drs_count else drs_count + 1,
                              current1,
                              drs_add full_id
                                \<lparr>entry_file = fpath,
                                 entry_sha256 = (if t_checksum t
                                                 then Some (file_sha256 (t_world t) fpath)
                                                 else None)\<rparr> drs,
                              st4)))))"

fun process_files :: "tagger \<Rightarrow> string \<Rightarrow> string list \<Rightarrow> file_acc \<Rightarrow> error + file_acc" where
  "process_files t ds [] acc = Inr acc"
| "process_files t ds (fpath # nc_files) acc =
     bind_result (process_file t ds fpath acc) (process_files t ds nc_files)"

text \<open>
  \<open>_process_dataset\<close>, on \<open>drs\<close>, the messages and the calls of \<open>_write_csv\<close> made so
  far. The rows \<open>_write_csv\<close> writes are determined by its arguments, up to the order in
  which a set of URIs is iterated; the model keeps the arguments. The sequence number of
  the dataset is only printed and is left out, as is all printing.
\<close>

type_synonym run_acc = "drs_table \<times> tagger_state \<times> (string \<times> (string \<rightharpoonup> tag_value)) list"

definition process_dataset :: "tagger \<Rightarrow> string \<Rightarrow> int \<Rightarrow> run_acc \<Rightarrow> error + run_acc" where
  "process_dataset t ds max_file_count acc =
     (case acc of (drs, st, csv) \<Rightarrow>
        if length (get_nc_files (t_world t) ds max_file_count) = 0
        then Inr (drs, add_error (''WARNING '' @ ds @ '', no .nc files found'') st, csv)
        else bind_result
               (process_files t ds (get_nc_files (t_world t) ds max_file_count)
                  (Map.empty, 0, Map.empty, drs, st))
               (\<lambda>(tags_ds, drs_count, current_drs_ids, drs1, st1).
                  Inr (drs1,
                       if drs_count = 0
                       then add_error (''ERROR in '' @ ds @ '', no DRS entries created'') st1
                       else st1,
                       csv @ [(ds, tags_ds)])))"

fun process_dataset_list :: "tagger \<Rightarrow> string list \<Rightarrow> int \<Rightarrow> run_acc \<Rightarrow> error + run_acc" where
  "process_dataset_list t [] max_file_count acc = Inr acc"
| "process_dataset_list t (ds # rest) max_file_count acc =
     bind_result (process_dataset t ds max_file_count acc)
       (process_dataset_list t rest max_file_count)"

text \<open>\<open>output_drs\<close>: the lines written to the store, the new pairs merged with the
  stored ones and sorted.\<close>

definition output_drs :: "drs_mapping \<Rightarrow> string set \<Rightarrow> string list" where
  "output_drs m new_pairs =
     sorted_list_of_set
       (new_pairs \<union> (\<Union>item\<in>set (ds_drs m). (\<lambda>drs_id. fst item @ '','' @ drs_id) ` set (snd item)))"

text \<open>
  \<open>process_datasets\<close>, from the messages of a new object: the datasets are taken in
  sorted order; the result is what is written at the end, \<open>drs\<close> (as JSON, with sorted
  keys), the tag rows, the lines of the error file and the lines of the store.
\<close>

record run_output =
  out_drs :: drs_table
  out_csv :: "(string \<times> (string \<rightharpoonup> tag_value)) list"
  out_errors :: "string list"
  out_store :: "string list"

definition process_datasets :: "tagger \<Rightarrow> string list \<Rightarrow> int \<Rightarrow> error + run_output" where
  "process_datasets t datasets max_file_count =
     bind_result
       (process_dataset_list t (sort datasets) max_file_count
          ([], \<lparr>not_found_messages = {}, error_messages = {}, drs_messages = {}\<rparr>, []))
       (\<lambda>(drs, st, csv).
          Inr \<lparr>out_drs = drs, out_csv = csv,
               out_errors = sorted_list_of_set (error_messages st),
               out_store = output_drs (t_drs_mapping t) (drs_messages st)\<rparr>)"

section \<open>Notions used in the statements\<close>

text \<open>A facet is missing from the resolved facets of a file when it is absent or its
  value is empty; it counts as reported when the messages hold its \<open>value not found\<close>
  message or a message that begins like an \<open>invalid value\<close> message for it.\<close>

definition facet_missing :: "(string \<rightharpoonup> string) \<Rightarrow> string \<Rightarrow> bool" where
  "facet_missing drs_ds facet = (drs_ds facet = None \<or> drs_ds facet = Some [])"

definition missing_reported :: "string \<Rightarrow> string \<Rightarrow> tagger_state \<Rightarrow> bool" where
  "missing_reported ds facet st =
     (''ERROR in '' @ ds @ '' for '' @ facet @ '', value not found'' \<in> error_messages st \<or>
      (\<exists>message\<in>error_messages st.
         prefix (''ERROR in '' @ ds @ '' for '' @ facet @ '', invalid value'') message))"

text \<open>Names for the examples: the theorems hold for every choice of the constants.\<close>

definition example_constants :: constants where
  "example_constants =
     \<lparr>DATA_TYPE = ''data_type'', FREQUENCY = ''time_coverage_resolution'',
      INSTITUTION = ''institution'', PLATFORM = ''platform'', SENSOR = ''sensor'',
      ECV = ''ecv'', PLATFORM_PROGRAMME = ''platform_programme'',
      PLATFORM_GROUP = ''platform_group'', PROCESSING_LEVEL = ''processing_level'',
      PRODUCT_STRING = ''product_string'', PRODUCT_VERSION = ''product_version''\<rparr>"

definition example_drs_ds :: "string \<rightharpoonup> string" where
  "example_drs_ds =
     [''ecv'' \<mapsto> ''SST'', ''time_coverage_resolution'' \<mapsto> ''P1month'',
      ''processing_level'' \<mapsto> ''L3C'', ''data_type'' \<mapsto> ''SSTskin'',
      ''platform'' \<mapsto> ''NOAA 18'', ''product_string'' \<mapsto> ''AVHRR_MERGED'',
      ''product_version'' \<mapsto> ''1.0'']"

definition sensor_reported :: tagger_state where
  "sensor_reported =
     \<lparr>not_found_messages = {''sensor: XYZ''},
      error_messages = {''ERROR in /d for sensor, invalid value '' @ dq @ ''XYZ'' @ dq},
      drs_messages = {}\<rparr>"

text \<open>The segments of the file name of a path, as \<open>_parse_file_name\<close> computes them;
  a file name is invalid when it has fewer than five segments or neither segment 1 nor
  segment 0 is the project marker. The start of the message that reports it.\<close>

definition file_segments_of :: "string \<Rightarrow> string list" where
  "file_segments_of fpath =
     str_split (str_split fpath ''/'' ! (length (str_split fpath ''/'') - 1)) ''-''"

definition file_name_invalid :: "string \<Rightarrow> bool" where
  "file_name_invalid fpath =
     (length (file_segments_of fpath) < 5 \<or>
      (file_segments_of fpath ! 1 \<noteq> ESACCI \<and> file_segments_of fpath ! 0 \<noteq> ESACCI))"

definition invalid_file_name_prefix :: "string \<Rightarrow> string" where
  "invalid_file_name_prefix ds = ''ERROR in '' @ ds @ '', invalid file name format''"

text \<open>The dict \<open>form\<close> that the two grammars fill, by four assignments.\<close>

definition file_name_form :: "constants \<Rightarrow> string \<Rightarrow> string \<Rightarrow> string \<Rightarrow> string \<Rightarrow> (string \<rightharpoonup> string)" where
  "file_name_form c level project data_type product =
     [PROCESSING_LEVEL c \<mapsto> level, ECV c \<mapsto> project, DATA_TYPE c \<mapsto> data_type,
      PRODUCT_STRING c \<mapsto> product]"

text \<open>A small vocabulary, an empty set of messages and a store for the examples. The
  store holds two identifiers of one dataset, the first an extension of the second's
  stem; the argument is the order in which the set of the dataset is iterated.\<close>

definition example_labels :: "(string \<times> (string \<times> string) list) list" where
  "example_labels =
     [(''ecv'', [(''sst'', ''vocab/ecv/sst'')]),
      (''processing_level'', [(''l3'', ''vocab/level/l3''), (''l3c'', ''vocab/level/l3c'')]),
      (''data_type'', [(''sstskin'', ''vocab/data/sstskin'')]),
      (''product_string'', [(''avhrr_merged'', ''vocab/product/avhrr_merged'')]),
      (''time_coverage_resolution'', [(''day'', ''vocab/freq/day'')]),
      (''sensor'', [(''avhrr'', ''vocab/sensor/avhrr''), (''aatsr'', ''vocab/sensor/aatsr'')]),
      (''platform'', [(''envisat'', ''vocab/platform/envisat''),
                      (''ers-2'', ''vocab/platform/ers-2'')]),
      (''platform_programme'', [(''envisat'', ''vocab/programme/envisat''),
                                (''ers'', ''vocab/programme/ers'')]),
      (''platform_group'', [(''esa'', ''vocab/group/esa'')])]"

definition example_pref_labels :: "(string \<times> string) list" where
  "example_pref_labels =
     [(''vocab/product/avhrr_merged'', ''AVHRR_MERGED''), (''vocab/freq/day'', ''day''),
      (''vocab/sensor/avhrr'', ''AVHRR''), (''vocab/sensor/aatsr'', ''AATSR''),
      (''vocab/platform/envisat'', ''Envisat''), (''vocab/platform/ers-2'', ''ERS-2'')]"

definition example_alt_labels :: "(string \<times> string) list" where
  "example_alt_labels =
     [(''vocab/ecv/sst'', ''SST''), (''vocab/level/l3'', ''L3''), (''vocab/level/l3c'', ''L3C''),
      (''vocab/data/sstskin'', ''SSTskin'')]"

definition example_vocab :: vocab where
  "example_vocab =
     \<lparr>get_labels = (\<lambda>facet. case map_of example_labels facet of
                               Some l \<Rightarrow> map_of l
                             | None \<Rightarrow> Map.empty),
      get_alt_labels = (\<lambda>facet. Map.empty),
      get_platforms_programme =
        map_of [(''vocab/platform/envisat'', ''envisat''), (''vocab/platform/ers-2'', ''ers'')],
      get_programmes_group =
        (\<lambda>uri. if uri = Some ''vocab/programme/ers'' then Some ''esa'' else None),
      get_programme_labels = [''envisat'', ''ers''],
      get_group_labels = [''esa''],
      get_pref_label = (\<lambda>uri. case map_of example_pref_labels uri of
                                  Some l \<Rightarrow> l
                                | None \<Rightarrow> []),
      get_alt_label = (\<lambda>uri. case map_of example_alt_labels uri of
                                 Some l \<Rightarrow> l
                               | None \<Rightarrow> [])\<rparr>"

definition no_messages :: tagger_state where
  "no_messages = \<lparr>not_found_messages = {}, error_messages = {}, drs_messages = {}\<rparr>"

definition clash_store :: "string list \<Rightarrow> drs_mapping" where
  "clash_store existing_drs =
     \<lparr>ds_drs = [(''/d'', existing_drs)],
      all_drs = [''esacci.SST.day.L3C.SSTskin.AVHRR.Envisat.AVHRR_MERGED.2-1.r1'',
                 ''esacci.SST.day.L3C.SSTskin.AVHRR.Envisat.AVHRR_MERGED.2.r1'']\<rparr>"

text \<open>The \<open>.nc\<close> files below a directory in the order of the walk; and the property
  that the files listed under each identifier of \<open>drs\<close> appear in the order in which
  the files were processed.\<close>

definition nc_paths :: "string \<Rightarrow> string list \<Rightarrow> string list" where
  "nc_paths root names = map (path_join root) (filter (suffix ''.nc'') names)"

definition walk_order :: "world \<Rightarrow> string \<Rightarrow> string list" where
  "walk_order w dir = concat (map (\<lambda>d. nc_paths (fst d) (snd d)) (walk w dir))"

definition files_in_order :: "drs_table \<Rightarrow> string list \<Rightarrow> bool" where
  "files_in_order drs processed =
     (\<forall>item\<in>set drs. subseq (map entry_file (snd item)) processed)"

text \<open>
  Files for the examples: two datasets of two files each, with file names of form 1
  and global attributes that resolve. The files of \<open>/d\<close> differ in the product
  version (2 and 2.1); those of \<open>/e\<close> agree in everything, and the walk lists the
  later one first, with a file that is no netCDF file in between.
\<close>

definition example_nc :: "string \<Rightarrow> nc_dataset" where
  "example_nc version =
     \<lparr>ncattrs = [(''time_coverage_resolution'', ''day''), (''platform'', ''Envisat''),
                 (''sensor'', ''AVHRR''), (''product_version'', version)],
      variables = [(''sst'', [(''long_name'', ''sea surface temperature'')])]\<rparr>"

definition example_world :: world where
  "example_world =
     \<lparr>walk = (\<lambda>dir.
         if dir = ''/d''
         then [(''/d'', [''20100101-ESACCI-L3C_SST-SSTskin-AVHRR_MERGED-fv01.0.nc'',
                         ''20100102-ESACCI-L3C_SST-SSTskin-AVHRR_MERGED-fv01.0.nc''])]
         else if dir = ''/e''
         then [(''/e'', [''20100102-ESACCI-L3C_SST-SSTskin-AVHRR_MERGED-fv01.0.nc'',
                         ''readme.txt'',
                         ''20100101-ESACCI-L3C_SST-SSTskin-AVHRR_MERGED-fv01.0.nc''])]
         else []),
      open_nc = (\<lambda>fpath.
         if fpath = ''/d/20100101-ESACCI-L3C_SST-SSTskin-AVHRR_MERGED-fv01.0.nc''
         then Some (example_nc ''2'')
         else if fpath = ''/d/20100102-ESACCI-L3C_SST-SSTskin-AVHRR_MERGED-fv01.0.nc''
         then Some (example_nc ''2.1'')
         else if prefix ''/e/'' fpath then Some (example_nc ''1.0'')
         else None),
      file_sha256 = (\<lambda>fpath. ''sha256 of '' @ fpath)\<rparr>"

definition example_tagger :: "drs_mapping \<Rightarrow> tagger" where
  "example_tagger m =
     \<lparr>t_world = example_world, t_constants = example_constants, t_vocab = example_vocab,
      t_checksum = False, t_use_mapping = True, t_drs_mapping = m\<rparr>"

section \<open>Properties of identifier stems\<close>

lemma str_replace_set: "set (str_replace old new s) \<subseteq> set s \<union> set new"
proof (induction old new s rule: str_replace.induct)
  case (1 old new)
  then show ?case by simp
next
  case (2 old new c cs)
  show ?case
  proof (cases "old \<noteq> [] \<and> prefix old (c # cs)")
    case True
    have "set (drop (length old) (c # cs)) \<subseteq> set (c # cs)"
      by (rule set_drop_subset)
    with 2(1) [OF True] True show ?thesis
      by auto
  next
    case False
    with 2(2) [OF False] show ?thesis
      by auto
  qed
qed

lemma str_replace_char: "str_replace [a] [b] s = map (\<lambda>ch. if ch = a then b else ch) s"
  by (induction s) auto

lemma str_replace_nonempty: "s \<noteq> [] \<Longrightarrow> new \<noteq> [] \<Longrightarrow> str_replace old new s \<noteq> []"
  by (cases s) auto

lemma facet_value_no_dot: "CHR ''.'' \<notin> set (facet_value c facet x)"
proof -
  let ?y = "str_replace '' '' ''-'' (str_replace ''.'' ''-'' x)"
  have "CHR ''.'' \<notin> set (str_replace ''.'' ''-'' x)"
    by (auto simp: str_replace_char)
  then have y: "CHR ''.'' \<notin> set ?y"
    using str_replace_set [of "'' ''" "''-''" "str_replace ''.'' ''-'' x"] by auto
  then have "CHR ''.'' \<notin> set (str_replace ''month'' ''mon'' ?y)"
    using str_replace_set [of "''month''" "''mon''" ?y] by auto
  then have "CHR ''.'' \<notin> set (str_replace ''year'' ''yr'' (str_replace ''month'' ''mon'' ?y))"
    using str_replace_set [of "''year''" "''yr''" "str_replace ''month'' ''mon'' ?y"] by auto
  with y show ?thesis
    by (simp add: facet_value_def Let_def)
qed

lemma facet_value_nonempty: "x \<noteq> [] \<Longrightarrow> facet_value c facet x \<noteq> []"
  by (simp add: facet_value_def Let_def str_replace_nonempty)

lemma split_from_no_sep:
  "ch \<notin> set x \<Longrightarrow> split_from [ch] cur (x @ rest) = split_from [ch] (cur @ x) rest"
  by (induction x arbitrary: cur) auto

lemma split_from_sep: "split_from [ch] cur (ch # rest) = cur # split_from [ch] [] rest"
  by simp

lemma split_dotted:
  "\<forall>x\<in>set vs. ch \<notin> set x \<Longrightarrow>
   split_from [ch] cur (concat (map ((#) ch) vs)) = cur # vs"
proof (induction vs arbitrary: cur)
  case Nil
  then show ?case by simp
next
  case (Cons x xs)
  have "split_from [ch] cur (concat (map ((#) ch) (x # xs))) =
      cur # split_from [ch] [] (x @ concat (map ((#) ch) xs))"
    by simp
  also have "split_from [ch] [] (x @ concat (map ((#) ch) xs)) =
      split_from [ch] x (concat (map ((#) ch) xs))"
    using Cons.prems split_from_no_sep [of ch x "[]"] by simp
  also have "\<dots> = x # xs"
    using Cons by simp
  finally show ?case .
qed

lemma str_split_dotted:
  assumes "ch \<notin> set p" "\<forall>x\<in>set vs. ch \<notin> set x"
  shows "str_split (p @ concat (map ((#) ch) vs)) [ch] = p # vs"
  using assms split_from_no_sep [of ch p "[]" "concat (map ((#) ch) vs)"]
  by (simp add: str_split_def split_dotted)

lemma value_not_found_mono: "error_messages st \<subseteq> error_messages (value_not_found ds facet st)"
  by (auto simp: value_not_found_def add_error_def)

lemma value_not_found_reported: "missing_reported ds facet (value_not_found ds facet st)"
  by (auto simp: value_not_found_def add_error_def missing_reported_def)

lemma missing_reported_mono:
  "missing_reported ds facet st \<Longrightarrow> error_messages st \<subseteq> error_messages st' \<Longrightarrow>
   missing_reported ds facet st'"
  by (auto simp: missing_reported_def)

lemma ds_id_step_missing:
  "facet_missing drs_ds facet \<Longrightarrow>
   ds_id_step c ds drs_ds facet (err, ds_id, st) = (True, ds_id, value_not_found ds facet st)"
  by (auto simp: ds_id_step_def facet_missing_def)

lemma ds_id_step_present:
  "\<not> facet_missing drs_ds facet \<Longrightarrow>
   ds_id_step c ds drs_ds facet (err, ds_id, st) =
     (err, ds_id @ CHR ''.'' # facet_value c facet (the (drs_ds facet)), st)"
  by (auto simp: ds_id_step_def facet_missing_def split: option.splits)

lemma ds_id_loop_err:
  "fst (foldl (\<lambda>acc facet. ds_id_step c ds drs_ds facet acc) (err, ds_id, st) fs) =
     (err \<or> (\<exists>facet\<in>set fs. facet_missing drs_ds facet))"
proof (induction fs arbitrary: err ds_id st)
  case Nil
  then show ?case by simp
next
  case (Cons f fs)
  show ?case
  proof (cases "facet_missing drs_ds f")
    case True
    then show ?thesis
      by (simp add: ds_id_step_missing Cons.IH)
  next
    case False
    then show ?thesis
      by (simp add: ds_id_step_present Cons.IH)
  qed
qed

lemma ds_id_loop_present:
  "\<forall>facet\<in>set fs. \<not> facet_missing drs_ds facet \<Longrightarrow>
   foldl (\<lambda>acc facet. ds_id_step c ds drs_ds facet acc) (err, ds_id, st) fs =
     (err, ds_id @ concat (map (\<lambda>facet. CHR ''.'' # facet_value c facet (the (drs_ds facet))) fs), st)"
  by (induction fs arbitrary: ds_id) (simp_all add: ds_id_step_present)

lemma ds_id_loop_mono:
  "error_messages st \<subseteq>
   error_messages (snd (snd (foldl (\<lambda>acc facet. ds_id_step c ds drs_ds facet acc) (err, ds_id, st) fs)))"
proof (induction fs arbitrary: err ds_id st)
  case Nil
  then show ?case by simp
next
  case (Cons f fs)
  show ?case
  proof (cases "facet_missing drs_ds f")
    case True
    have "error_messages st \<subseteq> error_messages (value_not_found ds f st)"
      by (rule value_not_found_mono)
    also have "\<dots> \<subseteq> error_messages (snd (snd (foldl (\<lambda>acc facet. ds_id_step c ds drs_ds facet acc)
        (True, ds_id, value_not_found ds f st) fs)))"
      by (rule Cons.IH)
    finally show ?thesis
      using True by (simp add: ds_id_step_missing)
  next
    case False
    then show ?thesis
      using Cons.IH by (simp add: ds_id_step_present)
  qed
qed

lemma ds_id_loop_reported:
  "f \<in> set fs \<Longrightarrow> facet_missing drs_ds f \<Longrightarrow>
   missing_reported ds f
     (snd (snd (foldl (\<lambda>acc facet. ds_id_step c ds drs_ds facet acc) (err, ds_id, st) fs)))"
proof (induction fs arbitrary: err ds_id st)
  case Nil
  then show ?case by simp
next
  case (Cons g fs)
  show ?case
  proof (cases "f = g")
    case True
    have "missing_reported ds f (value_not_found ds f st)"
      by (rule value_not_found_reported)
    then have "missing_reported ds f (snd (snd (foldl (\<lambda>acc facet. ds_id_step c ds drs_ds facet acc)
        (True, ds_id, value_not_found ds f st) fs)))"
      by (rule missing_reported_mono) (rule ds_id_loop_mono)
    then show ?thesis
      using True Cons.prems(2) by (simp add: ds_id_step_missing)
  next
    case False
    with Cons.prems have "f \<in> set fs" by simp
    then show ?thesis
      using Cons.IH Cons.prems(2)
      by (cases "facet_missing drs_ds g") (simp_all add: ds_id_step_missing ds_id_step_present)
  qed
qed

text \<open>
  Claim C1, amended. \<open>_generate_ds_id\<close> returns an identifier or \<open>None\<close>. An
  identifier is the prefix \<open>esacci\<close> followed by the values of the eight facets, in
  the fixed order, each value non-empty and free of dots and each preceded by a dot, so
  that splitting at the dots gives the prefix and exactly eight segments; no facet is
  missing then and no message is added. \<open>None\<close> is returned when a facet is missing,
  and then every missing facet is reported: the messages hold its \<open>value not found\<close>
  message, or a message beginning \<open>ERROR in ds for facet, invalid value\<close>, in which
  case the code adds none.
\<close>

theorem generate_ds_id_all_or_none:
  assumes "generate_ds_id c st ds drs_ds = (r, st')"
  shows "(\<forall>ds_id. r = Some ds_id \<longrightarrow>
            (\<exists>vs. length vs = 8 \<and> (\<forall>x\<in>set vs. x \<noteq> [] \<and> CHR ''.'' \<notin> set x) \<and>
                  vs = map (\<lambda>facet. facet_value c facet (the (drs_ds facet))) (ds_id_facets c) \<and>
                  ds_id = DRS_ESACCI @ concat (map ((#) CHR ''.'') vs) \<and>
                  str_split ds_id ''.'' = DRS_ESACCI # vs) \<and>
            (\<forall>facet\<in>set (ds_id_facets c). \<not> facet_missing drs_ds facet) \<and> st' = st) \<and>
         (r = None \<longrightarrow>
            (\<exists>facet\<in>set (ds_id_facets c). facet_missing drs_ds facet) \<and>
            (\<forall>facet\<in>set (ds_id_facets c).
               facet_missing drs_ds facet \<longrightarrow> missing_reported ds facet st'))"
proof -
  let ?loop = "foldl (\<lambda>acc facet. ds_id_step c ds drs_ds facet acc) (False, DRS_ESACCI, st)
    (ds_id_facets c)"
  obtain err ds_id1 st1 where loop: "?loop = (err, ds_id1, st1)"
    by (cases ?loop) auto
  from assms loop have r: "r = (if err then None else Some ds_id1)" and st': "st' = st1"
    by (simp_all add: generate_ds_id_def)
  have err: "err = (\<exists>facet\<in>set (ds_id_facets c). facet_missing drs_ds facet)"
    using ds_id_loop_err [of c ds drs_ds False DRS_ESACCI st "ds_id_facets c"] loop by simp
  show ?thesis
  proof (cases err)
    case True
    have "\<forall>facet\<in>set (ds_id_facets c). facet_missing drs_ds facet \<longrightarrow> missing_reported ds facet st'"
      using ds_id_loop_reported [of _ "ds_id_facets c" drs_ds ds c False DRS_ESACCI st] loop st'
      by simp
    with True r err show ?thesis
      by simp
  next
    case False
    with err have present: "\<forall>facet\<in>set (ds_id_facets c). \<not> facet_missing drs_ds facet"
      by simp
    let ?vs = "map (\<lambda>facet. facet_value c facet (the (drs_ds facet))) (ds_id_facets c)"
    from ds_id_loop_present [OF present, of c ds False DRS_ESACCI st] loop
    have id: "ds_id1 = DRS_ESACCI @ concat (map ((#) CHR ''.'') ?vs)" and st1: "st1 = st"
      by (simp_all add: comp_def)
    have len: "length ?vs = 8"
      by (simp add: ds_id_facets_def)
    have good: "\<forall>x\<in>set ?vs. x \<noteq> [] \<and> CHR ''.'' \<notin> set x"
    proof
      fix x assume "x \<in> set ?vs"
      then obtain facet where f: "facet \<in> set (ds_id_facets c)"
        and x: "x = facet_value c facet (the (drs_ds facet))"
        by auto
      from present f have "the (drs_ds facet) \<noteq> []"
        by (auto simp: facet_missing_def)
      with x show "x \<noteq> [] \<and> CHR ''.'' \<notin> set x"
        by (simp add: facet_value_nonempty facet_value_no_dot)
    qed
    have "CHR ''.'' \<notin> set DRS_ESACCI"
      by (simp add: DRS_ESACCI_def)
    with good have split: "str_split ds_id1 ''.'' = DRS_ESACCI # ?vs"
      unfolding id by (intro str_split_dotted) simp_all
    from False r have "r = Some ds_id1"
      by simp
    with len good id split present st' st1 show ?thesis
      by simp
  qed
qed

text \<open>A run on eight resolved facets.\<close>

theorem generate_ds_id_all_or_none_witness:
  "generate_ds_id example_constants sensor_reported ''/d'' (example_drs_ds(''sensor'' \<mapsto> ''AVHRR'')) =
     (Some ''esacci.SST.P1mon.L3C.SSTskin.AVHRR.NOAA-18.AVHRR_MERGED.1-0'', sensor_reported) \<and>
   length (str_split ''esacci.SST.P1mon.L3C.SSTskin.AVHRR.NOAA-18.AVHRR_MERGED.1-0'' ''.'') = 9"
proof -
  have run: "generate_ds_id example_constants sensor_reported ''/d'' (example_drs_ds(''sensor'' \<mapsto> ''AVHRR'')) =
     (Some ''esacci.SST.P1mon.L3C.SSTskin.AVHRR.NOAA-18.AVHRR_MERGED.1-0'', sensor_reported)"
    by (simp add: generate_ds_id_def ds_id_facets_def ds_id_step_def example_constants_def
      example_drs_ds_def facet_value_def DRS_ESACCI_def)
  have "\<exists>vs. length vs = 8 \<and>
      str_split ''esacci.SST.P1mon.L3C.SSTskin.AVHRR.NOAA-18.AVHRR_MERGED.1-0'' ''.'' = DRS_ESACCI # vs"
    using generate_ds_id_all_or_none [OF run] by blast
  then have "length (str_split ''esacci.SST.P1mon.L3C.SSTskin.AVHRR.NOAA-18.AVHRR_MERGED.1-0'' ''.'') = 9"
    by auto
  with run show ?thesis
    by blast
qed

text \<open>
  The claim as stated asks for a missing-facet message for each missing facet. With an
  \<open>invalid value\<close> message for the sensor already recorded (as
  \<open>_process_file_atrib\<close> leaves it when no term resolves) and the sensor absent, the
  result is \<open>None\<close> and no \<open>value not found\<close> message for the sensor is there.
\<close>

theorem generate_ds_id_counterexample:
  "fst (generate_ds_id example_constants sensor_reported ''/d'' example_drs_ds) = None \<and>
   example_drs_ds ''sensor'' = None \<and>
   ''ERROR in /d for sensor, value not found'' \<notin>
     error_messages (snd (generate_ds_id example_constants sensor_reported ''/d'' example_drs_ds))"
  by (simp add: generate_ds_id_def ds_id_facets_def ds_id_step_def example_constants_def
      example_drs_ds_def sensor_reported_def value_not_found_def add_error_def facet_value_def
      DRS_ESACCI_def dq_def)

section \<open>Properties of realization allocation\<close>

lemma realization_scan_least:
  "\<exists>N. realization_no \<le> N \<and>
       realization_scan known keys drs_id realization_no = ''r'' @ str_nat N \<and>
       ds_id_r drs_id N \<notin> set known \<and> ds_id_r drs_id N \<notin> set keys \<and>
       (\<forall>k. realization_no \<le> k \<and> k < N \<longrightarrow> ds_id_r drs_id k \<in> set known \<union> set keys)"
proof (induction known keys drs_id realization_no rule: realization_scan.induct)
  case (1 known keys drs_id n)
  show ?case
  proof (cases "ds_id_r drs_id n \<notin> set known \<and> ds_id_r drs_id n \<notin> set keys")
    case True
    then have "realization_scan known keys drs_id n = ''r'' @ str_nat n"
      by (subst realization_scan.simps) simp
    with True show ?thesis
      by (intro exI [of _ n]) auto
  next
    case False
    from 1 [OF False] obtain N where N: "n + 1 \<le> N"
      "realization_scan known keys drs_id (n + 1) = ''r'' @ str_nat N"
      "ds_id_r drs_id N \<notin> set known" "ds_id_r drs_id N \<notin> set keys"
      "\<forall>k. n + 1 \<le> k \<and> k < N \<longrightarrow> ds_id_r drs_id k \<in> set known \<union> set keys"
      by blast
    have "realization_scan known keys drs_id n = ''r'' @ str_nat N"
      using False N(2) by (subst realization_scan.simps) auto
    moreover have "\<forall>k. n \<le> k \<and> k < N \<longrightarrow> ds_id_r drs_id k \<in> set known \<union> set keys"
    proof (intro allI impI)
      fix k assume k: "n \<le> k \<and> k < N"
      show "ds_id_r drs_id k \<in> set known \<union> set keys"
      proof (cases "k = n")
        case True
        with False show ?thesis by auto
      next
        case False
        with k N(5) show ?thesis by simp
      qed
    qed
    ultimately show ?thesis
      using N(1,3,4) by (intro exI [of _ N]) simp
  qed
qed

lemma existing_realization_None:
  "(existing_realization drs_id es = None) = (\<forall>e_drs\<in>set es. \<not> prefix drs_id e_drs)"
  by (induction es) (auto split: list.splits)

text \<open>The regular case of the first loop: when the first recorded identifier that
  starts with the stem is the stem, a dot and a realization without a dot, that
  realization is reused.\<close>

lemma split_from_no_occurrence:
  "ch \<in> set sep \<Longrightarrow> ch \<notin> set s \<Longrightarrow> split_from sep cur s = [cur @ s]"
proof (induction s arbitrary: cur)
  case Nil
  then show ?case by simp
next
  case (Cons a s)
  have "\<not> prefix sep (a # s)"
  proof
    assume "prefix sep (a # s)"
    then have "set sep \<subseteq> set (a # s)"
      by (rule set_mono_prefix)
    with Cons.prems show False by auto
  qed
  with Cons show ?case by simp
qed

lemma split_from_at_sep:
  "sep \<noteq> [] \<Longrightarrow> split_from sep cur (sep @ r) = cur # split_from sep [] r"
proof -
  assume "sep \<noteq> []"
  then obtain a list where sep: "sep = a # list"
    by (cases sep) auto
  have "split_from (a # list) cur (a # (list @ r)) = cur # split_from (a # list) [] r"
    by simp
  then show ?thesis
    by (simp add: sep)
qed

lemma str_split_realization:
  assumes "CHR ''.'' \<notin> set r"
  shows "str_split (drs_id @ ''.'' @ r) (drs_id @ ''.'') = [[], r]"
proof -
  let ?sep = "drs_id @ ''.''"
  have "split_from ?sep [] (?sep @ r) = [] # split_from ?sep [] r"
    by (rule split_from_at_sep) simp
  moreover have "split_from ?sep [] r = [r]"
    using split_from_no_occurrence [of "CHR ''.''" ?sep r "[]"] assms by simp
  ultimately show ?thesis
    by (simp add: str_split_def)
qed

lemma existing_realization_reused:
  assumes "\<forall>e_drs\<in>set before. \<not> prefix drs_id e_drs" and "CHR ''.'' \<notin> set r"
  shows "existing_realization drs_id (before @ (drs_id @ ''.'' @ r) # after) = Some (Inr r)"
  using assms(1)
proof (induction before)
  case Nil
  then show ?case
    using str_split_realization [OF assms(2), of drs_id] by simp
next
  case (Cons e before)
  then show ?case by simp
qed

text \<open>
  The second loop is reached when no identifier recorded for the dataset starts with the
  stem, which is the test the first loop makes. The result is then \<open>rN\<close> for the
  least \<open>N \<ge> 1\<close> whose identifier \<open>stem.rN\<close> is neither in the list \<open>__drs\<close> of all
  recorded identifiers nor among the identifiers given out in this run.
\<close>

lemma get_next_realization_scan:
  assumes "\<forall>e_drs\<in>set (case get_drs m ds of None \<Rightarrow> [] | Some existing_drs \<Rightarrow> existing_drs).
    \<not> prefix drs_id e_drs"
  shows "\<exists>N. 0 < N \<and> get_next_realization m ds drs_id drs = Inr (''r'' @ str_nat N) \<and>
    ds_id_r drs_id N \<notin> set (all_drs m) \<and> ds_id_r drs_id N \<notin> set (map fst drs) \<and>
    (\<forall>k. 0 < k \<and> k < N \<longrightarrow> ds_id_r drs_id k \<in> set (all_drs m) \<union> set (map fst drs))"
proof -
  from assms have none: "existing_realization drs_id
      (case get_drs m ds of None \<Rightarrow> [] | Some existing_drs \<Rightarrow> existing_drs) = None"
    by (simp add: existing_realization_None)
  obtain N where N: "1 \<le> N"
    "realization_scan (all_drs m) (map fst drs) drs_id 1 = ''r'' @ str_nat N"
    "ds_id_r drs_id N \<notin> set (all_drs m)" "ds_id_r drs_id N \<notin> set (map fst drs)"
    "\<forall>k. 1 \<le> k \<and> k < N \<longrightarrow> ds_id_r drs_id k \<in> set (all_drs m) \<union> set (map fst drs)"
    using realization_scan_least [of 1 "all_drs m" "map fst drs" drs_id] by blast
  have "get_next_realization m ds drs_id drs = Inr (''r'' @ str_nat N)"
    using none N(2) by (simp add: get_next_realization_def get_drs_all_def)
  moreover have "\<forall>k. 0 < k \<and> k < N \<longrightarrow>
      ds_id_r drs_id k \<in> set (all_drs m) \<union> set (map fst drs)"
    using N(5) by (simp add: Suc_le_eq)
  ultimately show ?thesis
    using N(1,3,4) by (intro exI [of _ N]) simp
qed

text \<open>
  With an empty store and \<open>s.r1\<close>, \<open>s.r2\<close> given out in this run, the result is
  \<open>r3\<close>.
\<close>

lemma get_next_realization_scan_example:
  "get_next_realization \<lparr>ds_drs = [], all_drs = []\<rparr> ''d'' ''s''
     [(''s.r1'', []), (''s.r2'', [])] = Inr ''r3''"
proof -
  let ?m = "\<lparr>ds_drs = [], all_drs = []\<rparr>"
  let ?drs = "[(''s.r1'', []), (''s.r2'', [])] :: drs_table"
  have "\<forall>e_drs\<in>set (case get_drs ?m ''d'' of None \<Rightarrow> [] | Some existing_drs \<Rightarrow> existing_drs).
      \<not> prefix ''s'' e_drs"
    by (simp add: get_drs_def)
  from get_next_realization_scan [OF this, of ?drs] obtain N where N: "0 < N"
    "get_next_realization ?m ''d'' ''s'' ?drs = Inr (''r'' @ str_nat N)"
    "ds_id_r ''s'' N \<notin> set (map fst ?drs)"
    "\<forall>k. 0 < k \<and> k < N \<longrightarrow> ds_id_r ''s'' k \<in> set (all_drs ?m) \<union> set (map fst ?drs)"
    by blast
  have "N \<noteq> 1" "N \<noteq> 2"
    using N(3) by (auto simp: ds_id_r_def str_nat.simps digit_char_def)
  moreover have "\<not> 3 < N"
  proof
    assume "3 < N"
    with N(4) have "ds_id_r ''s'' 3 \<in> set (all_drs ?m) \<union> set (map fst ?drs)"
      by simp
    then show False
      by (simp add: ds_id_r_def str_nat.simps digit_char_def)
  qed
  ultimately have "N = 3"
    using N(1) by arith
  with N(2) show ?thesis
    by (simp add: str_nat.simps digit_char_def)
qed

text \<open>
  Claim C6. Dataset \<open>/d\<close> has one recorded identifier, of the stem with product
  version 2-1, and the stem looked up has product version 2. The recorded identifier
  does not begin with the stem and a dot, so the dataset has no matching prior
  assignment; \<open>stem.r1\<close> is neither in the list of all recorded identifiers nor given
  out in this run, so the least free number is 1. Yet \<open>_get_next_realization\<close> does
  not return \<open>r1\<close>: \<open>startswith(drs_id)\<close> accepts the recorded identifier, the split
  at \<open>drs_id + '.'\<close> has a single piece and index 1 raises IndexError. With the same
  identifier recorded for another dataset only, \<open>r1\<close> is returned.
\<close>

theorem realization_fresh_prefix_clash:
  "get_drs
     \<lparr>ds_drs = [(''/d'', [''esacci.SST.day.L3C.SSTskin.AVHRR.Envisat.AVHRR_MERGED.2-1.r1''])],
      all_drs = [''esacci.SST.day.L3C.SSTskin.AVHRR.Envisat.AVHRR_MERGED.2-1.r1'']\<rparr> ''/d'' =
     Some [''esacci.SST.day.L3C.SSTskin.AVHRR.Envisat.AVHRR_MERGED.2-1.r1''] \<and>
   \<not> prefix (''esacci.SST.day.L3C.SSTskin.AVHRR.Envisat.AVHRR_MERGED.2'' @ ''.'')
     ''esacci.SST.day.L3C.SSTskin.AVHRR.Envisat.AVHRR_MERGED.2-1.r1'' \<and>
   ds_id_r ''esacci.SST.day.L3C.SSTskin.AVHRR.Envisat.AVHRR_MERGED.2'' 1 \<notin>
     set [''esacci.SST.day.L3C.SSTskin.AVHRR.Envisat.AVHRR_MERGED.2-1.r1''] \<and>
   get_next_realization
     \<lparr>ds_drs = [(''/d'', [''esacci.SST.day.L3C.SSTskin.AVHRR.Envisat.AVHRR_MERGED.2-1.r1''])],
      all_drs = [''esacci.SST.day.L3C.SSTskin.AVHRR.Envisat.AVHRR_MERGED.2-1.r1'']\<rparr>
     ''/d'' ''esacci.SST.day.L3C.SSTskin.AVHRR.Envisat.AVHRR_MERGED.2'' [] = Inl IndexError \<and>
   get_next_realization
     \<lparr>ds_drs = [(''/e'', [''esacci.SST.day.L3C.SSTskin.AVHRR.Envisat.AVHRR_MERGED.2-1.r1''])],
      all_drs = [''esacci.SST.day.L3C.SSTskin.AVHRR.Envisat.AVHRR_MERGED.2-1.r1'']\<rparr>
     ''/d'' ''esacci.SST.day.L3C.SSTskin.AVHRR.Envisat.AVHRR_MERGED.2'' [] = Inr ''r1''"
  by code_simp

text \<open>
  Claim C10. The scan of \<open>_get_next_realization\<close> returns from every starting number:
  its result is \<open>rN\<close> for some \<open>N\<close> not below the start. The function is total by
  the termination proof above, which rests on the two lists being finite.
\<close>

theorem realization_scan_returns:
  "\<exists>N. realization_no \<le> N \<and>
     realization_scan known keys drs_id realization_no = ''r'' @ str_nat N"
  using realization_scan_least [of realization_no known keys drs_id] by blast

text \<open>
  Claim C2. The store of dataset \<open>/d\<close> holds the identifier \<open>stem.r1\<close>, which begins
  with the stem and a dot, and one identifier of a longer stem (product version 2.1
  beside 2). When the iteration visits the longer one first, \<open>startswith(drs_id)\<close>
  accepts it, the split at \<open>drs_id + '.'\<close> has a single piece and index 1 raises
  IndexError; in the other order \<open>r1\<close> is returned.
\<close>

theorem get_next_realization_prefix_clash:
  "prefix (''esacci.SST.day.L3C.SSTskin.AVHRR.Envisat.AVHRR_MERGED.2'' @ ''.'')
     ''esacci.SST.day.L3C.SSTskin.AVHRR.Envisat.AVHRR_MERGED.2.r1'' \<and>
   get_next_realization
     (clash_store [''esacci.SST.day.L3C.SSTskin.AVHRR.Envisat.AVHRR_MERGED.2-1.r1'',
                   ''esacci.SST.day.L3C.SSTskin.AVHRR.Envisat.AVHRR_MERGED.2.r1''])
     ''/d'' ''esacci.SST.day.L3C.SSTskin.AVHRR.Envisat.AVHRR_MERGED.2'' [] = Inl IndexError \<and>
   get_next_realization
     (clash_store [''esacci.SST.day.L3C.SSTskin.AVHRR.Envisat.AVHRR_MERGED.2.r1'',
                   ''esacci.SST.day.L3C.SSTskin.AVHRR.Envisat.AVHRR_MERGED.2-1.r1''])
     ''/d'' ''esacci.SST.day.L3C.SSTskin.AVHRR.Envisat.AVHRR_MERGED.2'' [] = Inr ''r1''"
  by (simp add: get_next_realization_def clash_store_def get_drs_def str_split_def)

section \<open>Properties of file name parsing\<close>

lemma split_from_nonempty: "split_from sep cur s \<noteq> []"
  by (induction sep cur s rule: split_from.induct) auto

lemma str_split_nonempty: "str_split s sep \<noteq> []"
  by (simp add: str_split_def split_from_nonempty)

lemma split_from_length: "ch \<in> set s \<Longrightarrow> 2 \<le> length (split_from [ch] cur s)"
proof (induction s arbitrary: cur)
  case Nil
  then show ?case by simp
next
  case (Cons a s)
  have "1 \<le> length (split_from [ch] [] s)"
    using split_from_nonempty [of "[ch]" "[]" s] by (cases "split_from [ch] [] s") simp_all
  with Cons show ?case
    by auto
qed

lemma parse_invalid:
  "file_name_invalid fpath \<Longrightarrow>
   parse_file_name c v use_mapping st ds fpath =
     Inr ((Map.empty, Map.empty),
          invalid_file_name st ds (str_split fpath ''/'' ! (length (str_split fpath ''/'') - 1)))"
  by (auto simp: file_name_invalid_def file_segments_of_def parse_file_name_def Let_def)

lemma invalid_file_name_reported:
  "\<exists>message\<in>error_messages (invalid_file_name st ds name). prefix (invalid_file_name_prefix ds) message"
  by (auto simp: invalid_file_name_def invalid_file_name_prefix_def add_error_def)

lemma invalid_file_name_again:
  "\<exists>message\<in>error_messages st. prefix (invalid_file_name_prefix ds) message \<Longrightarrow>
   invalid_file_name st ds name = st"
  by (auto simp: invalid_file_name_def invalid_file_name_prefix_def)

lemma invalid_file_name_adds:
  "error_messages (invalid_file_name st ds name) \<subseteq>
     insert (''ERROR in '' @ ds @ '', invalid file name format '' @ dq @ name @ dq) (error_messages st)"
  "error_messages st \<subseteq> error_messages (invalid_file_name st ds name)"
  "not_found_messages (invalid_file_name st ds name) = not_found_messages st"
  "drs_messages (invalid_file_name st ds name) = drs_messages st"
  by (auto simp: invalid_file_name_def add_error_def)

text \<open>
  Claim C9. For a file whose name is invalid (fewer than five segments, or neither
  grammar), \<open>_parse_file_name\<close> returns two empty dicts and the messages then hold an
  invalid-file-name message for the dataset: the one for this file is added, and nothing
  else, unless one for the dataset was there already, in which case nothing changes. A
  second invalid file of the same dataset, whatever its name, parsed right after or at
  any later state that still holds the messages, adds nothing.
\<close>

theorem invalid_file_name_once:
  assumes "file_name_invalid fpath1" and "file_name_invalid fpath2"
  shows "\<exists>st1. parse_file_name c v use_mapping st ds fpath1 = Inr ((Map.empty, Map.empty), st1) \<and>
    (\<exists>message\<in>error_messages st1. prefix (invalid_file_name_prefix ds) message) \<and>
    error_messages st \<subseteq> error_messages st1 \<and>
    error_messages st1 \<subseteq>
      insert (''ERROR in '' @ ds @ '', invalid file name format '' @ dq @
               (str_split fpath1 ''/'' ! (length (str_split fpath1 ''/'') - 1)) @ dq)
        (error_messages st) \<and>
    ((\<exists>message\<in>error_messages st. prefix (invalid_file_name_prefix ds) message) \<longrightarrow> st1 = st) \<and>
    parse_file_name c v use_mapping st1 ds fpath2 = Inr ((Map.empty, Map.empty), st1) \<and>
    (\<forall>st2. error_messages st1 \<subseteq> error_messages st2 \<longrightarrow>
       parse_file_name c v use_mapping st2 ds fpath2 = Inr ((Map.empty, Map.empty), st2))"
proof -
  let ?name1 = "str_split fpath1 ''/'' ! (length (str_split fpath1 ''/'') - 1)"
  let ?st1 = "invalid_file_name st ds ?name1"
  have p1: "parse_file_name c v use_mapping st ds fpath1 = Inr ((Map.empty, Map.empty), ?st1)"
    using assms(1) by (rule parse_invalid)
  have rep: "\<exists>message\<in>error_messages ?st1. prefix (invalid_file_name_prefix ds) message"
    by (rule invalid_file_name_reported)
  have later: "parse_file_name c v use_mapping st2 ds fpath2 = Inr ((Map.empty, Map.empty), st2)"
    if "error_messages ?st1 \<subseteq> error_messages st2" for st2
  proof -
    from rep that have "\<exists>message\<in>error_messages st2. prefix (invalid_file_name_prefix ds) message"
      by blast
    then show ?thesis
      using assms(2) by (simp add: parse_invalid invalid_file_name_again)
  qed
  have same: "(\<exists>message\<in>error_messages st. prefix (invalid_file_name_prefix ds) message) \<longrightarrow> ?st1 = st"
    by (simp add: invalid_file_name_again)
  show ?thesis
    using p1 rep same later [of ?st1] later invalid_file_name_adds(1,2) [of st ds ?name1]
    by (intro exI [of _ ?st1]) blast
qed

text \<open>Two invalid names in one dataset: one message, for the first.\<close>

theorem invalid_file_name_once_witness:
  "file_name_invalid ''/d/a-b-c.nc'' \<and> file_name_invalid ''/d/x-y.nc'' \<and>
   (\<exists>st1. parse_file_name example_constants example_vocab True no_messages ''/d'' ''/d/a-b-c.nc'' =
            Inr ((Map.empty, Map.empty), st1) \<and>
          error_messages st1 = {''ERROR in /d, invalid file name format '' @ dq @ ''a-b-c.nc'' @ dq} \<and>
          parse_file_name example_constants example_vocab True st1 ''/d'' ''/d/x-y.nc'' =
            Inr ((Map.empty, Map.empty), st1))"
proof -
  have i1: "file_name_invalid ''/d/a-b-c.nc''" and i2: "file_name_invalid ''/d/x-y.nc''"
    by (simp_all add: file_name_invalid_def file_segments_of_def str_split_def)
  have name: "str_split ''/d/a-b-c.nc'' ''/'' ! (length (str_split ''/d/a-b-c.nc'' ''/'') - 1) = ''a-b-c.nc''"
    by (simp add: str_split_def)
  from invalid_file_name_once [OF i1 i2, of example_constants example_vocab True no_messages "''/d''"]
  obtain st1 where st1:
    "parse_file_name example_constants example_vocab True no_messages ''/d'' ''/d/a-b-c.nc'' =
       Inr ((Map.empty, Map.empty), st1)"
    "\<exists>message\<in>error_messages st1. prefix (invalid_file_name_prefix ''/d'') message"
    "error_messages st1 \<subseteq>
       insert (''ERROR in /d, invalid file name format '' @ dq @ ''a-b-c.nc'' @ dq)
         (error_messages no_messages)"
    "parse_file_name example_constants example_vocab True st1 ''/d'' ''/d/x-y.nc'' =
       Inr ((Map.empty, Map.empty), st1)"
    unfolding name by auto
  from st1(2,3) have "error_messages st1 = {''ERROR in /d, invalid file name format '' @ dq @ ''a-b-c.nc'' @ dq}"
    by (auto simp: no_messages_def)
  with i1 i2 st1(1,4) show ?thesis
    by blast
qed

lemma file_name_form_lookup:
  assumes "distinct [PROCESSING_LEVEL c, ECV c, DATA_TYPE c, PRODUCT_STRING c]"
  shows "file_name_form c level project data_type product (PROCESSING_LEVEL c) = Some level"
    and "file_name_form c level project data_type product (ECV c) = Some project"
    and "file_name_form c level project data_type product (DATA_TYPE c) = Some data_type"
    and "file_name_form c level project data_type product (PRODUCT_STRING c) = Some product"
  using assms by (auto simp: file_name_form_def)

lemma str_split_index1:
  "ch \<in> set s \<Longrightarrow> index (str_split s [ch]) (Suc 0) = Inr (str_split s [ch] ! Suc 0)"
  using split_from_length [of ch s "[]"] by (simp add: index_def str_split_def)

lemma str_split_index0: "index (str_split s sep) 0 = Inr (str_split s sep ! 0)"
  using str_split_nonempty [of s sep] by (simp add: index_def)

text \<open>
  Claim C5, amended. For a file name of at least five segments: when segment 1 is the
  marker \<open>ESACCI\<close> and segment 2 contains an underscore, form 1 applies and stores
  piece 0 of segment 2 (split at underscores) as processing level, piece 1 as project,
  segment 3 as data type and segment 4 as product string; when segment 1 is not the
  marker and segment 0 is, form 2 applies and stores segment 2 as processing level,
  segment 1 as project, segment 3 as data type and segment 4 as product string. In both
  cases \<open>_parse_file_name\<close> hands this dict to \<open>_process_form\<close>.
\<close>

theorem file_name_grammars:
  assumes "5 \<le> length (file_segments_of fpath)"
  shows
    "(file_segments_of fpath ! 1 = ESACCI \<and> CHR ''_'' \<in> set (file_segments_of fpath ! 2) \<longrightarrow>
        get_data_from_file_name_1 c (file_segments_of fpath) =
          Inr (file_name_form c (str_split (file_segments_of fpath ! 2) ''_'' ! 0)
                 (str_split (file_segments_of fpath ! 2) ''_'' ! 1)
                 (file_segments_of fpath ! 3) (file_segments_of fpath ! 4)) \<and>
        parse_file_name c v use_mapping st ds fpath =
          process_form c v use_mapping st ds
            (file_name_form c (str_split (file_segments_of fpath ! 2) ''_'' ! 0)
               (str_split (file_segments_of fpath ! 2) ''_'' ! 1)
               (file_segments_of fpath ! 3) (file_segments_of fpath ! 4))) \<and>
     (file_segments_of fpath ! 1 \<noteq> ESACCI \<and> file_segments_of fpath ! 0 = ESACCI \<longrightarrow>
        get_data_from_file_name_2 c (file_segments_of fpath) =
          Inr (file_name_form c (file_segments_of fpath ! 2) (file_segments_of fpath ! 1)
                 (file_segments_of fpath ! 3) (file_segments_of fpath ! 4)) \<and>
        parse_file_name c v use_mapping st ds fpath =
          process_form c v use_mapping st ds
            (file_name_form c (file_segments_of fpath ! 2) (file_segments_of fpath ! 1)
               (file_segments_of fpath ! 3) (file_segments_of fpath ! 4)))"
proof -
  let ?segs = "file_segments_of fpath"
  have idx: "index ?segs (Suc 0) = Inr (?segs ! Suc 0)" "index ?segs 2 = Inr (?segs ! 2)"
    "index ?segs 3 = Inr (?segs ! 3)" "index ?segs 4 = Inr (?segs ! 4)"
    using assms by (simp_all add: index_def)
  have a: "get_data_from_file_name_1 c ?segs =
      Inr (file_name_form c (str_split (?segs ! 2) ''_'' ! 0) (str_split (?segs ! 2) ''_'' ! 1)
             (?segs ! 3) (?segs ! 4))"
    if "CHR ''_'' \<in> set (?segs ! 2)"
    using that
    by (simp add: get_data_from_file_name_1_def idx bind_result_def str_split_index0
        str_split_index1 file_name_form_def)
  have b: "get_data_from_file_name_2 c ?segs =
      Inr (file_name_form c (?segs ! 2) (?segs ! 1) (?segs ! 3) (?segs ! 4))"
    by (simp add: get_data_from_file_name_2_def idx bind_result_def file_name_form_def)
  have len: "\<not> length ?segs < 5"
    using assms by simp
  have pa: "parse_file_name c v use_mapping st ds fpath =
      bind_result (get_data_from_file_name_1 c ?segs) (process_form c v use_mapping st ds)"
    if "?segs ! 1 = ESACCI"
    using that len by (simp add: parse_file_name_def Let_def file_segments_of_def)
  have pb: "parse_file_name c v use_mapping st ds fpath =
      bind_result (get_data_from_file_name_2 c ?segs) (process_form c v use_mapping st ds)"
    if "?segs ! 1 \<noteq> ESACCI" "?segs ! 0 = ESACCI"
    using that len by (simp add: parse_file_name_def Let_def file_segments_of_def)
  show ?thesis
    using a b pa pb by (simp add: bind_result_def)
qed

text \<open>The two file names of the specification give the same four values.\<close>

theorem file_name_grammars_witness:
  "get_data_from_file_name_1 example_constants
     (file_segments_of ''20100101-ESACCI-L3_SST-sea_surface_temperature-AVHRR-fv1.0.nc'') =
     Inr (file_name_form example_constants ''L3'' ''SST'' ''sea_surface_temperature'' ''AVHRR'') \<and>
   get_data_from_file_name_2 example_constants
     (file_segments_of ''ESACCI-SST-L3-sea_surface_temperature-AVHRR-fv1.0.nc'') =
     Inr (file_name_form example_constants ''L3'' ''SST'' ''sea_surface_temperature'' ''AVHRR'') \<and>
   file_name_form example_constants ''L3'' ''SST'' ''sea_surface_temperature'' ''AVHRR''
     ''processing_level'' = Some ''L3'' \<and>
   file_name_form example_constants ''L3'' ''SST'' ''sea_surface_temperature'' ''AVHRR''
     ''ecv'' = Some ''SST'' \<and>
   file_name_form example_constants ''L3'' ''SST'' ''sea_surface_temperature'' ''AVHRR''
     ''data_type'' = Some ''sea_surface_temperature'' \<and>
   file_name_form example_constants ''L3'' ''SST'' ''sea_surface_temperature'' ''AVHRR''
     ''product_string'' = Some ''AVHRR''"
proof -
  let ?a = "''20100101-ESACCI-L3_SST-sea_surface_temperature-AVHRR-fv1.0.nc''"
  let ?b = "''ESACCI-SST-L3-sea_surface_temperature-AVHRR-fv1.0.nc''"
  have sa: "file_segments_of ?a =
      [''20100101'', ''ESACCI'', ''L3_SST'', ''sea_surface_temperature'', ''AVHRR'', ''fv1.0.nc'']"
    and sb: "file_segments_of ?b =
      [''ESACCI'', ''SST'', ''L3'', ''sea_surface_temperature'', ''AVHRR'', ''fv1.0.nc'']"
    by (simp_all add: file_segments_of_def str_split_def)
  have "5 \<le> length (file_segments_of ?a)" "5 \<le> length (file_segments_of ?b)"
    by (simp_all add: sa sb)
  from file_name_grammars [OF this(1), of example_constants]
    file_name_grammars [OF this(2), of example_constants]
  show ?thesis
    by (simp add: sa sb ESACCI_def str_split_def file_name_form_def example_constants_def)
qed

text \<open>
  The claim as stated covers every name of at least five segments whose segment 1 is the
  marker. When segment 2 has no underscore, piece 1 does not exist: form 1 raises
  IndexError and so does \<open>_parse_file_name\<close>.
\<close>

theorem file_name_grammars_counterexample:
  "5 \<le> length (file_segments_of ''/d/20100101-ESACCI-L3-SSTskin-AVHRR_MERGED-fv01.0.nc'') \<and>
   file_segments_of ''/d/20100101-ESACCI-L3-SSTskin-AVHRR_MERGED-fv01.0.nc'' ! 1 = ESACCI \<and>
   get_data_from_file_name_1 example_constants
     (file_segments_of ''/d/20100101-ESACCI-L3-SSTskin-AVHRR_MERGED-fv01.0.nc'') = Inl IndexError \<and>
   parse_file_name example_constants example_vocab True no_messages ''/d''
     ''/d/20100101-ESACCI-L3-SSTskin-AVHRR_MERGED-fv01.0.nc'' = Inl IndexError"
  by (simp add: file_segments_of_def str_split_def ESACCI_def parse_file_name_def
      get_data_from_file_name_1_def index_def bind_result_def)

section \<open>Properties of attribute resolution\<close>

text \<open>The URI that \<open>_get_term_uri\<close> returns does not depend on the messages recorded
  so far, nor on the dataset argument.\<close>

lemma get_term_uri_fst:
  "fst (get_term_uri c v use_mapping st facet t ds) = fst (get_term_uri c v use_mapping st' facet t ds')"
  by (simp add: get_term_uri_def Let_def split: option.splits)

lemma add_tags_Inr:
  "add_tags key p tags = Inr tags' \<Longrightarrow> tags key = Some s \<Longrightarrow> tags' key = Some (s \<union> set p)"
  by (auto simp: add_tags_def split: if_splits)

lemma add_tags_other:
  "add_tags key p tags = Inr tags' \<Longrightarrow> k \<noteq> key \<Longrightarrow> tags' k = tags k"
  by (auto simp: add_tags_def split: if_splits option.splits)

text \<open>What one round does to the count and to the set of the attribute.\<close>

lemma resolve_bit_step:
  assumes "resolve_bit c v use_mapping global_attr abit (drs, tags, n, st) = Inr (drs', tags', n', st')"
  shows "n \<le> n'"
    and "0 < n \<Longrightarrow> tags global_attr = Some s \<Longrightarrow> \<exists>s'. tags' global_attr = Some s' \<and> s \<subseteq> s'"
    and "fst (get_term_uri c v use_mapping st global_attr (str_strip abit) None) = Some uri \<Longrightarrow>
         n < n' \<and> (\<exists>s'. tags' global_attr = Some s' \<and> Some uri \<in> s')"
proof -
  obtain r st1 where look: "get_term_uri c v use_mapping st global_attr (str_strip abit) None = (r, st1)"
    by (cases "get_term_uri c v use_mapping st global_attr (str_strip abit) None") auto
  show "n \<le> n'"
    using assms look
    by (cases r)
      (auto simp: resolve_bit_def bind_result_def split: if_splits sum.splits prod.splits)
  show "\<exists>s'. tags' global_attr = Some s' \<and> s \<subseteq> s'" if "0 < n" "tags global_attr = Some s"
  proof (cases r)
    case None
    show ?thesis
    proof (cases "global_attr = PLATFORM c")
      case True
      obtain p_tags st2 where p: "get_paltform_as_programme c v use_mapping st1 (str_strip abit) = (p_tags, st2)"
        by (cases "get_paltform_as_programme c v use_mapping st1 (str_strip abit)") auto
      from assms look None True p that(1)
      have "add_tags global_attr p_tags tags = Inr tags'"
        by (auto simp: resolve_bit_def bind_result_def split: sum.splits)
      from add_tags_Inr [OF this that(2)] show ?thesis
        by auto
    next
      case False
      with assms look None that show ?thesis
        by (auto simp: resolve_bit_def)
    qed
  next
    case (Some term_uri)
    from that(1) have n0: "n \<noteq> 0" by simp
    obtain tags1 where t1: "add_tags global_attr [Some term_uri] tags = Inr tags1"
      using assms look Some n0
      by (auto simp: resolve_bit_def bind_result_def split: sum.splits)
    from add_tags_Inr [OF t1 that(2)] have s1: "tags1 global_attr = Some (s \<union> set [Some term_uri])" .
    show ?thesis
    proof (cases "global_attr = PLATFORM c")
      case True
      obtain p st2 where g: "get_programme_group c v use_mapping st1 term_uri = Inr (p, st2)"
        using assms look Some n0 t1 True
        by (auto simp: resolve_bit_def bind_result_def split: sum.splits)
      have "add_tags global_attr p tags1 = Inr tags'"
        using assms look Some n0 t1 True g
        by (auto simp: resolve_bit_def bind_result_def split: sum.splits)
      from add_tags_Inr [OF this s1] show ?thesis
        by auto
    next
      case False
      with assms look Some n0 t1 have "tags' = tags1"
        by (auto simp: resolve_bit_def bind_result_def)
      with s1 show ?thesis
        by auto
    qed
  qed
  show "n < n' \<and> (\<exists>s'. tags' global_attr = Some s' \<and> Some uri \<in> s')"
    if "fst (get_term_uri c v use_mapping st global_attr (str_strip abit) None) = Some uri"
  proof -
    from that look have r: "r = Some uri" by simp
    let ?tags0 = "if n = 0 then tags(global_attr \<mapsto> {}) else tags"
    obtain tags1 where t1: "add_tags global_attr [Some uri] ?tags0 = Inr tags1"
      using assms look r
      by (auto simp: resolve_bit_def bind_result_def split: sum.splits)
    then obtain s0 where s0: "?tags0 global_attr = Some s0"
      by (auto simp: add_tags_def split: option.splits)
    from add_tags_Inr [OF t1 s0] have s1: "tags1 global_attr = Some (s0 \<union> set [Some uri])" .
    show ?thesis
    proof (cases "global_attr = PLATFORM c")
      case True
      obtain p st2 where g: "get_programme_group c v use_mapping st1 uri = Inr (p, st2)"
        using assms look r t1 True
        by (auto simp: resolve_bit_def bind_result_def split: sum.splits)
      have a2: "add_tags global_attr p tags1 = Inr tags'" and "n' = n + 1"
        using assms look r t1 True g
        by (auto simp: resolve_bit_def bind_result_def split: sum.splits)
      from add_tags_Inr [OF a2 s1] \<open>n' = n + 1\<close> show ?thesis
        by auto
    next
      case False
      with assms look r t1 have "tags' = tags1" "n' = n + 1"
        by (auto simp: resolve_bit_def bind_result_def)
      with s1 show ?thesis
        by auto
    qed
  qed
qed

lemma resolve_bits_loop:
  assumes "resolve_bits c v use_mapping global_attr bits (drs, tags, n, st) = Inr (drs', tags', n', st')"
  shows "n \<le> n' \<and>
    (0 < n \<longrightarrow> (\<forall>s. tags global_attr = Some s \<longrightarrow> (\<exists>s'. tags' global_attr = Some s' \<and> s \<subseteq> s'))) \<and>
    (\<forall>abit\<in>set bits. \<forall>uri.
       fst (get_term_uri c v use_mapping st global_attr (str_strip abit) None) = Some uri \<longrightarrow>
       (\<exists>s'. tags' global_attr = Some s' \<and> Some uri \<in> s'))"
  using assms
proof (induction bits arbitrary: drs tags n st)
  case Nil
  then show ?case by auto
next
  case (Cons abit bits)
  from Cons.prems obtain drs1 tags1 n1 st1 where
    step: "resolve_bit c v use_mapping global_attr abit (drs, tags, n, st) = Inr (drs1, tags1, n1, st1)"
    and rest: "resolve_bits c v use_mapping global_attr bits (drs1, tags1, n1, st1) = Inr (drs', tags', n', st')"
    by (auto simp: bind_result_def split: sum.splits)
  note ih = Cons.IH [OF rest]
  note s1 = resolve_bit_step(1) [OF step]
  have le: "n \<le> n'"
    using s1 ih by simp
  have mono: "\<exists>s'. tags' global_attr = Some s' \<and> s \<subseteq> s'" if "0 < n" "tags global_attr = Some s" for s
  proof -
    from resolve_bit_step(2) [OF step that] obtain s1' where a: "tags1 global_attr = Some s1'" "s \<subseteq> s1'"
      by blast
    from that(1) s1 have "0 < n1" by simp
    with ih a(1) obtain s' where "tags' global_attr = Some s'" "s1' \<subseteq> s'"
      by blast
    with a(2) show ?thesis by blast
  qed
  have found: "\<exists>s'. tags' global_attr = Some s' \<and> Some uri \<in> s'"
    if "b \<in> set (abit # bits)"
      "fst (get_term_uri c v use_mapping st global_attr (str_strip b) None) = Some uri" for b uri
  proof (cases "b \<in> set bits")
    case True
    from that(2) have "fst (get_term_uri c v use_mapping st1 global_attr (str_strip b) None) = Some uri"
      using get_term_uri_fst [of c v use_mapping st1 global_attr "str_strip b" None st None] by simp
    with ih True show ?thesis by blast
  next
    case False
    with that(1) have "b = abit" by simp
    with resolve_bit_step(3) [OF step] that(2) obtain s1' where
      a: "n < n1" "tags1 global_attr = Some s1'" "Some uri \<in> s1'"
      by blast
    from a(1) have "0 < n1" by simp
    with ih a(2) obtain s' where "tags' global_attr = Some s'" "s1' \<subseteq> s'"
      by blast
    with a(3) show ?thesis by blast
  qed
  show ?case
    using le mono found by blast
qed

lemma resolve_bits_count:
  assumes "resolve_bits c v use_mapping global_attr bits (drs, tags, n, st) = Inr (drs', tags', n', st')"
  shows "n + length (filter (\<lambda>abit.
      fst (get_term_uri c v use_mapping st global_attr (str_strip abit) None) \<noteq> None) bits) \<le> n'"
  using assms
proof (induction bits arbitrary: drs tags n st)
  case Nil
  then show ?case by simp
next
  case (Cons abit bits)
  from Cons.prems obtain drs1 tags1 n1 st1 where
    step: "resolve_bit c v use_mapping global_attr abit (drs, tags, n, st) = Inr (drs1, tags1, n1, st1)"
    and rest: "resolve_bits c v use_mapping global_attr bits (drs1, tags1, n1, st1) = Inr (drs', tags', n', st')"
    by (auto simp: bind_result_def split: sum.splits)
  have same: "(\<lambda>b. fst (get_term_uri c v use_mapping st1 global_attr (str_strip b) None) \<noteq> None) =
      (\<lambda>b. fst (get_term_uri c v use_mapping st global_attr (str_strip b) None) \<noteq> None)"
    using get_term_uri_fst [of c v use_mapping st1 global_attr _ None st None] by auto
  from Cons.IH [OF rest] have ih: "n1 + length (filter (\<lambda>b.
      fst (get_term_uri c v use_mapping st global_attr (str_strip b) None) \<noteq> None) bits) \<le> n'"
    by (simp only: same)
  show ?case
  proof (cases "fst (get_term_uri c v use_mapping st global_attr (str_strip abit) None)")
    case None
    with resolve_bit_step(1) [OF step] ih show ?thesis by simp
  next
    case (Some uri)
    with resolve_bit_step(3) [OF step] have "n < n1" by blast
    with Some ih show ?thesis by simp
  qed
qed

text \<open>
  Claim C3. Let the loop of \<open>_process_file_atrib\<close> over the bits of a SENSOR or
  PLATFORM attribute end with a count above 1. Then the function returns, the DRS value
  of the attribute is the fixed label (\<open>multi-sensor\<close> for SENSOR, which the code
  tests first, \<open>multi-platform\<close> for PLATFORM) and not the label of a term, and the
  tag set of the attribute holds the
  URI of every bit that resolved. By \<open>resolve_bits_count\<close> the count is at least the
  number of bits that resolve, so two resolved terms are enough.
\<close>

theorem multi_valued_collapse:
  assumes "attrib_bits c use_mapping global_attr attr = Inr (attr1, bits)"
    and "resolve_bits c v use_mapping global_attr bits ([], Map.empty, 0, st) =
          Inr (drs, tags, term_count, st1)"
    and "1 < term_count"
    and "global_attr = SENSOR c \<or> global_attr = PLATFORM c"
  shows "\<exists>drs1. process_file_atrib c v use_mapping st global_attr attr ds = Inr ((drs1, tags), st1) \<and>
    drs1 global_attr = Some (if global_attr = SENSOR c then MULTI_SENSOR else MULTI_PLATFORM) \<and>
    (\<forall>abit\<in>set bits. \<forall>uri.
       fst (get_term_uri c v use_mapping st global_attr (str_strip abit) None) = Some uri \<longrightarrow>
       (\<exists>s. tags global_attr = Some s \<and> Some uri \<in> s))"
proof -
  let ?drs1 = "if global_attr = SENSOR c then AList.update global_attr MULTI_SENSOR drs
    else AList.update global_attr MULTI_PLATFORM drs"
  have ne: "?drs1 \<noteq> []"
    by (auto simp: update_Some_unfold dest: arg_cong [where f = map_of])
  have run: "process_file_atrib c v use_mapping st global_attr attr ds =
      Inr ((map_of ?drs1, tags), st1)"
    using assms ne by (auto simp: process_file_atrib_def bind_result_def Let_def)
  have "map_of ?drs1 global_attr =
      Some (if global_attr = SENSOR c then MULTI_SENSOR else MULTI_PLATFORM)"
    by (simp add: update_conv')
  with run resolve_bits_loop [OF assms(2)] show ?thesis
    by blast
qed

text \<open>A platform attribute naming two platforms.\<close>

theorem multi_valued_collapse_witness:
  "\<exists>drs1 tags st1. process_file_atrib example_constants example_vocab True no_messages ''platform''
       ''Envisat,ERS-2'' ''/d'' = Inr ((drs1, tags), st1) \<and>
     drs1 ''platform'' = Some ''multi-platform'' \<and>
     (\<exists>s. tags ''platform'' = Some s \<and> Some ''vocab/platform/envisat'' \<in> s \<and>
          Some ''vocab/platform/ers-2'' \<in> s)"
proof -
  have bits: "attrib_bits example_constants True ''platform'' ''Envisat,ERS-2'' =
      Inr (''Envisat,ERS-2'', [''Envisat'', ''ERS-2''])"
    by code_simp
  have "case resolve_bits example_constants example_vocab True ''platform'' [''Envisat'', ''ERS-2'']
      ([], Map.empty, 0, no_messages) of Inl e \<Rightarrow> False | Inr (drs, tags, n, st1) \<Rightarrow> 1 < n"
    by code_simp
  then obtain drs tags n st1 where loop:
    "resolve_bits example_constants example_vocab True ''platform'' [''Envisat'', ''ERS-2'']
      ([], Map.empty, 0, no_messages) = Inr (drs, tags, n, st1)" and n: "1 < n"
    by (auto split: sum.splits)
  have sel: "''platform'' = SENSOR example_constants \<or> ''platform'' = PLATFORM example_constants"
    by (simp add: example_constants_def)
  have r1: "fst (get_term_uri example_constants example_vocab True no_messages ''platform''
      (str_strip ''Envisat'') None) = Some ''vocab/platform/envisat''"
    and r2: "fst (get_term_uri example_constants example_vocab True no_messages ''platform''
      (str_strip ''ERS-2'') None) = Some ''vocab/platform/ers-2''"
    by code_simp+
  from multi_valued_collapse [OF bits loop n sel, of "''/d''"] obtain drs1 where d:
    "process_file_atrib example_constants example_vocab True no_messages ''platform''
       ''Envisat,ERS-2'' ''/d'' = Inr ((drs1, tags), st1)"
    "drs1 ''platform'' = Some (if ''platform'' = SENSOR example_constants then MULTI_SENSOR
       else MULTI_PLATFORM)"
    "\<forall>abit\<in>set [''Envisat'', ''ERS-2'']. \<forall>uri.
       fst (get_term_uri example_constants example_vocab True no_messages ''platform''
         (str_strip abit) None) = Some uri \<longrightarrow>
       (\<exists>s. tags ''platform'' = Some s \<and> Some uri \<in> s)"
    by blast
  from d(2) have m: "drs1 ''platform'' = Some ''multi-platform''"
    by (simp add: example_constants_def MULTI_PLATFORM_def)
  from d(3) r1 r2 obtain s where "tags ''platform'' = Some s"
    "Some ''vocab/platform/envisat'' \<in> s" "Some ''vocab/platform/ers-2'' \<in> s"
    by fastforce
  with d(1) m show ?thesis
    by blast
qed

text \<open>
  Claim C7. The attribute \<open>Envisat,ers\<close> names a platform and then a platform
  programme. The programme and its group are added to the tags, but the count is raised
  by 2 only when it is still 0: here it stays 1 and the DRS value is the label of the
  platform, not \<open>multi-platform\<close>. With the programme first (\<open>ers,Envisat\<close>) the
  same tags come with \<open>multi-platform\<close>.
\<close>

theorem programme_after_platform:
  "(case process_file_atrib example_constants example_vocab True no_messages ''platform''
          ''Envisat,ers'' ''/d'' of
      Inl e \<Rightarrow> False
    | Inr ((drs, tags), st) \<Rightarrow>
        drs ''platform'' = Some ''Envisat'' \<and>
        tags ''platform'' = Some {Some ''vocab/platform/envisat'', Some ''vocab/programme/envisat'',
          Some ''vocab/programme/ers'', Some ''vocab/group/esa''} \<and>
        st = no_messages\<lparr>not_found_messages := {''platform: ers''}\<rparr>) \<and>
   (case process_file_atrib example_constants example_vocab True no_messages ''platform''
          ''ers,Envisat'' ''/d'' of
      Inl e \<Rightarrow> False
    | Inr ((drs, tags), st) \<Rightarrow>
        drs ''platform'' = Some ''multi-platform'' \<and>
        tags ''platform'' = Some {Some ''vocab/platform/envisat'', Some ''vocab/programme/envisat'',
          Some ''vocab/programme/ers'', Some ''vocab/group/esa''} \<and>
        st = no_messages\<lparr>not_found_messages := {''platform: ers''}\<rparr>)"
  by code_simp

section \<open>Properties of the run\<close>

lemma nc_files_in_all:
  "max_file_count \<le> 0 \<Longrightarrow>
   fst (fst (nc_files_in root names max_file_count acc)) = fst acc @ nc_paths root names \<and>
   \<not> snd (nc_files_in root names max_file_count acc)"
  by (induction names arbitrary: acc) (auto simp: nc_paths_def)

lemma nc_files_walk_all:
  "max_file_count \<le> 0 \<Longrightarrow>
   nc_files_walk dirs max_file_count acc =
     fst acc @ concat (map (\<lambda>d. nc_paths (fst d) (snd d)) dirs)"
proof (induction dirs arbitrary: acc)
  case Nil
  then show ?case by simp
next
  case (Cons d dirs)
  obtain acc1 returned where r: "nc_files_in (fst d) (snd d) max_file_count acc = (acc1, returned)"
    by (cases "nc_files_in (fst d) (snd d) max_file_count acc") auto
  with nc_files_in_all [OF Cons.prems, of "fst d" "snd d" acc]
  have "fst acc1 = fst acc @ nc_paths (fst d) (snd d)" "\<not> returned"
    by simp_all
  with r Cons show ?case
    by simp
qed

lemma nc_files_in_capped:
  assumes "0 < max_file_count" "snd acc = int (length (fst acc)) + 1"
    "length (fst acc) < nat max_file_count"
  shows "(let full = fst acc @ nc_paths root names
          in if nat max_file_count \<le> length full
             then fst (fst (nc_files_in root names max_file_count acc)) = take (nat max_file_count) full \<and>
                  snd (nc_files_in root names max_file_count acc)
             else fst (nc_files_in root names max_file_count acc) = (full, int (length full) + 1) \<and>
                  \<not> snd (nc_files_in root names max_file_count acc))"
  using assms
proof (induction names arbitrary: acc)
  case Nil
  then show ?case
    by (cases acc) (simp add: nc_paths_def Let_def)
next
  case (Cons name names)
  show ?case
  proof (cases "suffix ''.nc'' name")
    case False
    with Cons.IH [OF Cons.prems] show ?thesis
      by (simp add: nc_paths_def Let_def)
  next
    case True
    let ?acc1 = "(fst acc @ [path_join root name], snd acc + 1)"
    show ?thesis
    proof (cases "snd acc + 1 > max_file_count")
      case over: True
      with Cons.prems have "nat max_file_count = length (fst acc) + 1"
        by linarith
      with True over Cons.prems(1) show ?thesis
        by (simp add: nc_paths_def Let_def)
    next
      case under: False
      with Cons.prems have p: "snd ?acc1 = int (length (fst ?acc1)) + 1"
        "length (fst ?acc1) < nat max_file_count"
        by simp_all
      from Cons.IH [OF Cons.prems(1) p] True under Cons.prems(1) show ?thesis
        by (simp add: nc_paths_def Let_def)
    qed
  qed
qed

lemma nc_files_walk_capped:
  assumes "0 < max_file_count" "snd acc = int (length (fst acc)) + 1"
    "length (fst acc) < nat max_file_count"
  shows "nc_files_walk dirs max_file_count acc =
     take (nat max_file_count) (fst acc @ concat (map (\<lambda>d. nc_paths (fst d) (snd d)) dirs))"
  using assms
proof (induction dirs arbitrary: acc)
  case Nil
  then show ?case by simp
next
  case (Cons d dirs)
  let ?full = "fst acc @ nc_paths (fst d) (snd d)"
  let ?r = "nc_files_in (fst d) (snd d) max_file_count acc"
  note step = nc_files_in_capped [OF Cons.prems, of "fst d" "snd d"]
  show ?case
  proof (cases "nat max_file_count \<le> length ?full")
    case True
    with step have "fst (fst ?r) = take (nat max_file_count) ?full" "snd ?r"
      by (simp_all add: Let_def)
    with True show ?thesis
      by (cases ?r) simp
  next
    case False
    with step have r: "fst ?r = (?full, int (length ?full) + 1)" "\<not> snd ?r"
      by (simp_all add: Let_def)
    from False have "length (fst (?full, int (length ?full) + 1)) < nat max_file_count"
      by simp
    from Cons.IH [OF Cons.prems(1) _ this] r show ?thesis
      by (cases ?r) simp
  qed
qed

lemma get_nc_files_walk_order:
  "get_nc_files w dir max_file_count =
     (if 0 < max_file_count then take (nat max_file_count) (walk_order w dir)
      else walk_order w dir)"
proof (cases "0 < max_file_count")
  case True
  then have "length (fst ([] :: string list, 1 :: int)) < nat max_file_count"
    by simp
  from nc_files_walk_capped [OF True _ this, of "walk w dir"] True show ?thesis
    by (simp add: get_nc_files_def walk_order_def)
next
  case False
  then show ?thesis
    by (simp add: get_nc_files_def walk_order_def nc_files_walk_all)
qed

lemma files_in_order_add:
  assumes "files_in_order drs processed"
  shows "files_in_order (drs_add dataset_id entry drs) (processed @ [entry_file entry])"
proof -
  have old: "subseq (map entry_file (snd item)) (processed @ [entry_file entry])"
    if "item \<in> set drs" for item
    using assms that by (auto simp: files_in_order_def)
  have new: "subseq (map entry_file (snd item @ [entry])) (processed @ [entry_file entry])"
    if "item \<in> set drs" for item
    using assms that by (auto simp: files_in_order_def intro: list_emb_append_mono)
  show ?thesis
    using old new by (auto simp: files_in_order_def drs_add_def)
qed

lemma files_in_order_skip:
  "files_in_order drs processed \<Longrightarrow> files_in_order drs (processed @ later)"
  by (auto simp: files_in_order_def)

lemma process_file_drs:
  assumes "process_file t ds fpath (tags_ds, drs_count, current, drs, st) =
      Inr (tags_ds', drs_count', current', drs', st')"
  shows "drs' = drs \<or>
    (\<exists>dataset_id sha. drs' = drs_add dataset_id \<lparr>entry_file = fpath, entry_sha256 = sha\<rparr> drs)"
  using assms
  by (auto simp: process_file_def bind_result_def Let_def
      split: sum.splits prod.splits option.splits)

lemma process_file_order:
  assumes "process_file t ds fpath (tags_ds, drs_count, current, drs, st) =
      Inr (tags_ds', drs_count', current', drs', st')"
    and "files_in_order drs processed"
  shows "files_in_order drs' (processed @ [fpath])"
proof -
  from process_file_drs [OF assms(1)] consider "drs' = drs"
    | dataset_id sha where "drs' = drs_add dataset_id \<lparr>entry_file = fpath, entry_sha256 = sha\<rparr> drs"
    by blast
  then show ?thesis
  proof cases
    case 1
    with assms(2) show ?thesis
      by (simp add: files_in_order_skip)
  next
    case 2
    with files_in_order_add [OF assms(2), of dataset_id "\<lparr>entry_file = fpath, entry_sha256 = sha\<rparr>"]
    show ?thesis
      by simp
  qed
qed

lemma process_files_order:
  assumes "process_files t ds nc_files (tags_ds, drs_count, current, drs, st) =
      Inr (tags_ds', drs_count', current', drs', st')"
    and "files_in_order drs processed"
  shows "files_in_order drs' (processed @ nc_files)"
  using assms
proof (induction nc_files arbitrary: tags_ds drs_count current drs st processed)
  case Nil
  then show ?case by simp
next
  case (Cons fpath nc_files)
  from Cons.prems(1) obtain a1 b1 c1 drs1 st1 where
    one: "process_file t ds fpath (tags_ds, drs_count, current, drs, st) = Inr (a1, b1, c1, drs1, st1)"
    and rest: "process_files t ds nc_files (a1, b1, c1, drs1, st1) =
      Inr (tags_ds', drs_count', current', drs', st')"
    by (auto simp: bind_result_def split: sum.splits)
  from process_file_order [OF one Cons.prems(2)] have "files_in_order drs1 (processed @ [fpath])" .
  from Cons.IH [OF rest this] show ?case
    by simp
qed

lemma process_dataset_order:
  assumes "process_dataset t ds max_file_count (drs, st, csv) = Inr (drs', st', csv')"
    and "files_in_order drs processed"
  shows "files_in_order drs' (processed @ get_nc_files (t_world t) ds max_file_count)"
    and "map fst csv' =
      map fst csv @ (if get_nc_files (t_world t) ds max_file_count = [] then [] else [ds])"
proof -
  let ?files = "get_nc_files (t_world t) ds max_file_count"
  show "files_in_order drs' (processed @ ?files)"
  proof (cases "?files = []")
    case True
    with assms show ?thesis
      by (simp add: process_dataset_def)
  next
    case False
    with assms(1) obtain a b c st1 where
      "process_files t ds ?files (Map.empty, 0, Map.empty, drs, st) = Inr (a, b, c, drs', st1)"
      by (auto simp: process_dataset_def bind_result_def split: sum.splits)
    from process_files_order [OF this assms(2)] show ?thesis .
  qed
  show "map fst csv' = map fst csv @ (if ?files = [] then [] else [ds])"
    using assms(1)
    by (auto simp: process_dataset_def bind_result_def split: sum.splits if_splits)
qed

lemma process_dataset_list_order:
  assumes "process_dataset_list t dss max_file_count (drs, st, csv) = Inr (drs', st', csv')"
    and "files_in_order drs processed"
  shows "files_in_order drs'
      (processed @ concat (map (\<lambda>ds. get_nc_files (t_world t) ds max_file_count) dss)) \<and>
    map fst csv' =
      map fst csv @ filter (\<lambda>ds. get_nc_files (t_world t) ds max_file_count \<noteq> []) dss"
  using assms
proof (induction dss arbitrary: drs st csv processed)
  case Nil
  then show ?case by simp
next
  case (Cons ds dss)
  from Cons.prems(1) obtain drs1 st1 csv1 where
    one: "process_dataset t ds max_file_count (drs, st, csv) = Inr (drs1, st1, csv1)"
    and rest: "process_dataset_list t dss max_file_count (drs1, st1, csv1) = Inr (drs', st', csv')"
    by (auto simp: bind_result_def split: sum.splits)
  note o = process_dataset_order [OF one Cons.prems(2)]
  from Cons.IH [OF rest o(1)] o(2) show ?case
    by simp
qed

text \<open>
  Claim C8, amended. \<open>_get_nc_files\<close> returns the \<open>.nc\<close> files in the order in which
  the walk of the directory lists them, cut after \<open>max_file_count\<close> files when that
  is positive; it does not sort. A run that ends takes the datasets in sorted order and
  each dataset as a whole before the next: the rows of the datasets that have files are
  written in sorted order of the datasets, and the files listed under every identifier
  appear in the order of the sorted datasets and, within a dataset, of the walk.
\<close>

theorem processing_order:
  "get_nc_files w dir max_file_count =
     (if 0 < max_file_count then take (nat max_file_count) (walk_order w dir)
      else walk_order w dir) \<and>
   (\<forall>out. process_datasets t datasets max_file_count = Inr out \<longrightarrow>
      map fst (out_csv out) =
        filter (\<lambda>ds. get_nc_files (t_world t) ds max_file_count \<noteq> []) (sort datasets) \<and>
      files_in_order (out_drs out)
        (concat (map (\<lambda>ds. get_nc_files (t_world t) ds max_file_count) (sort datasets))))"
proof (intro conjI allI impI)
  show "get_nc_files w dir max_file_count =
     (if 0 < max_file_count then take (nat max_file_count) (walk_order w dir)
      else walk_order w dir)"
    by (rule get_nc_files_walk_order)
next
  fix out
  assume run: "process_datasets t datasets max_file_count = Inr out"
  then obtain drs st csv where
    loop: "process_dataset_list t (sort datasets) max_file_count
      ([], \<lparr>not_found_messages = {}, error_messages = {}, drs_messages = {}\<rparr>, []) =
      Inr (drs, st, csv)"
    and out: "out_drs out = drs" "out_csv out = csv"
    by (auto simp: process_datasets_def bind_result_def split: sum.splits)
  have "files_in_order [] []"
    by (simp add: files_in_order_def)
  from process_dataset_list_order [OF loop this] out
  show "map fst (out_csv out) =
      filter (\<lambda>ds. get_nc_files (t_world t) ds max_file_count \<noteq> []) (sort datasets)"
    and "files_in_order (out_drs out)
      (concat (map (\<lambda>ds. get_nc_files (t_world t) ds max_file_count) (sort datasets)))"
    by simp_all
qed

text \<open>A run over both example datasets, given in reverse order.\<close>

theorem processing_order_witness:
  "get_nc_files example_world ''/d'' 1 =
     [''/d/20100101-ESACCI-L3C_SST-SSTskin-AVHRR_MERGED-fv01.0.nc''] \<and>
   (\<exists>out. process_datasets (example_tagger \<lparr>ds_drs = [], all_drs = []\<rparr>) [''/e'', ''/d''] 0 = Inr out \<and>
      map fst (out_csv out) = [''/d'', ''/e''] \<and>
      files_in_order (out_drs out)
        [''/d/20100101-ESACCI-L3C_SST-SSTskin-AVHRR_MERGED-fv01.0.nc'',
         ''/d/20100102-ESACCI-L3C_SST-SSTskin-AVHRR_MERGED-fv01.0.nc'',
         ''/e/20100102-ESACCI-L3C_SST-SSTskin-AVHRR_MERGED-fv01.0.nc'',
         ''/e/20100101-ESACCI-L3C_SST-SSTskin-AVHRR_MERGED-fv01.0.nc''])"
proof -
  let ?t = "example_tagger \<lparr>ds_drs = [], all_drs = []\<rparr>"
  have w: "walk_order example_world ''/d'' =
      [''/d/20100101-ESACCI-L3C_SST-SSTskin-AVHRR_MERGED-fv01.0.nc'',
       ''/d/20100102-ESACCI-L3C_SST-SSTskin-AVHRR_MERGED-fv01.0.nc'']"
    by code_simp
  have first: "get_nc_files example_world ''/d'' 1 =
      [''/d/20100101-ESACCI-L3C_SST-SSTskin-AVHRR_MERGED-fv01.0.nc'']"
    using processing_order [of example_world "''/d''" 1 ?t "[]", THEN conjunct1]
    unfolding w by simp
  have "case process_datasets ?t [''/e'', ''/d''] 0 of Inl e \<Rightarrow> False | Inr out \<Rightarrow> True"
    by code_simp
  then obtain out where run: "process_datasets ?t [''/e'', ''/d''] 0 = Inr out"
    by (auto split: sum.splits)
  have ds: "filter (\<lambda>ds. get_nc_files (t_world ?t) ds 0 \<noteq> []) (sort [''/e'', ''/d'']) =
      [''/d'', ''/e'']"
    by code_simp
  have files: "concat (map (\<lambda>ds. get_nc_files (t_world ?t) ds 0) (sort [''/e'', ''/d''])) =
      [''/d/20100101-ESACCI-L3C_SST-SSTskin-AVHRR_MERGED-fv01.0.nc'',
       ''/d/20100102-ESACCI-L3C_SST-SSTskin-AVHRR_MERGED-fv01.0.nc'',
       ''/e/20100102-ESACCI-L3C_SST-SSTskin-AVHRR_MERGED-fv01.0.nc'',
       ''/e/20100101-ESACCI-L3C_SST-SSTskin-AVHRR_MERGED-fv01.0.nc'']"
    by code_simp
  note po = processing_order [of example_world "''/d''" 0 ?t "[''/e'', ''/d'']",
      THEN conjunct2, rule_format, OF run]
  have a: "map fst (out_csv out) = [''/d'', ''/e'']"
    using po [THEN conjunct1] unfolding ds .
  have b: "files_in_order (out_drs out)
      [''/d/20100101-ESACCI-L3C_SST-SSTskin-AVHRR_MERGED-fv01.0.nc'',
       ''/d/20100102-ESACCI-L3C_SST-SSTskin-AVHRR_MERGED-fv01.0.nc'',
       ''/e/20100102-ESACCI-L3C_SST-SSTskin-AVHRR_MERGED-fv01.0.nc'',
       ''/e/20100101-ESACCI-L3C_SST-SSTskin-AVHRR_MERGED-fv01.0.nc'']"
    using po [THEN conjunct2] unfolding files .
  show ?thesis
    by (intro conjI exI [of _ out]) (rule first run a b)+
qed

text \<open>
  The claim as stated has the files of a dataset processed in sorted order of their
  paths. The walk of \<open>/e\<close> lists the file of the second day first: that is the order
  \<open>_get_nc_files\<close> returns, it is not sorted, and it is the order in which the files
  are listed under their identifier.
\<close>

theorem processing_order_counterexample:
  "get_nc_files example_world ''/e'' 0 =
     [''/e/20100102-ESACCI-L3C_SST-SSTskin-AVHRR_MERGED-fv01.0.nc'',
      ''/e/20100101-ESACCI-L3C_SST-SSTskin-AVHRR_MERGED-fv01.0.nc''] \<and>
   \<not> sorted [''/e/20100102-ESACCI-L3C_SST-SSTskin-AVHRR_MERGED-fv01.0.nc'',
              ''/e/20100101-ESACCI-L3C_SST-SSTskin-AVHRR_MERGED-fv01.0.nc''] \<and>
   (case process_datasets (example_tagger \<lparr>ds_drs = [], all_drs = []\<rparr>) [''/e''] 0 of
      Inl e \<Rightarrow> False
    | Inr out \<Rightarrow>
        map (\<lambda>item. (fst item, map entry_file (snd item))) (out_drs out) =
          [(''esacci.SST.day.L3C.SSTskin.AVHRR.Envisat.AVHRR_MERGED.1-0.r1'',
            [''/e/20100102-ESACCI-L3C_SST-SSTskin-AVHRR_MERGED-fv01.0.nc'',
             ''/e/20100101-ESACCI-L3C_SST-SSTskin-AVHRR_MERGED-fv01.0.nc''])])"
  by code_simp

text \<open>
  Claim C4. Dataset \<open>/d\<close> holds two files whose stems differ in the product version,
  2 and 2.1. The first run, from an empty store, gives both realization \<open>r1\<close> and
  writes the two pairs to the store. A second run over the same files, from a store
  holding exactly these pairs, ends in IndexError when the set of the dataset is
  iterated with the identifier of the longer stem first (the defect of claim C2), and
  writes nothing; with the other order it reproduces the output of the first run.
\<close>

theorem second_run_aborts:
  "(case process_datasets (example_tagger \<lparr>ds_drs = [], all_drs = []\<rparr>) [''/d''] 0 of
      Inl e \<Rightarrow> False
    | Inr out \<Rightarrow>
        map (\<lambda>item. (fst item, map entry_file (snd item))) (out_drs out) =
          [(''esacci.SST.day.L3C.SSTskin.AVHRR.Envisat.AVHRR_MERGED.2.r1'',
            [''/d/20100101-ESACCI-L3C_SST-SSTskin-AVHRR_MERGED-fv01.0.nc'']),
           (''esacci.SST.day.L3C.SSTskin.AVHRR.Envisat.AVHRR_MERGED.2-1.r1'',
            [''/d/20100102-ESACCI-L3C_SST-SSTskin-AVHRR_MERGED-fv01.0.nc''])] \<and>
        out_store out =
          [''/d,esacci.SST.day.L3C.SSTskin.AVHRR.Envisat.AVHRR_MERGED.2-1.r1'',
           ''/d,esacci.SST.day.L3C.SSTskin.AVHRR.Envisat.AVHRR_MERGED.2.r1'']) \<and>
   (case process_datasets
           (example_tagger
              (clash_store [''esacci.SST.day.L3C.SSTskin.AVHRR.Envisat.AVHRR_MERGED.2-1.r1'',
                            ''esacci.SST.day.L3C.SSTskin.AVHRR.Envisat.AVHRR_MERGED.2.r1'']))
           [''/d''] 0 of
      Inl e \<Rightarrow> e = IndexError
    | Inr out \<Rightarrow> False) \<and>
   (case process_datasets
           (example_tagger
              (clash_store [''esacci.SST.day.L3C.SSTskin.AVHRR.Envisat.AVHRR_MERGED.2.r1'',
                            ''esacci.SST.day.L3C.SSTskin.AVHRR.Envisat.AVHRR_MERGED.2-1.r1'']))
           [''/d''] 0 of
      Inl e \<Rightarrow> False
    | Inr out \<Rightarrow>
        map (\<lambda>item. (fst item, map entry_file (snd item))) (out_drs out) =
          [(''esacci.SST.day.L3C.SSTskin.AVHRR.Envisat.AVHRR_MERGED.2.r1'',
            [''/d/20100101-ESACCI-L3C_SST-SSTskin-AVHRR_MERGED-fv01.0.nc'']),
           (''esacci.SST.day.L3C.SSTskin.AVHRR.Envisat.AVHRR_MERGED.2-1.r1'',
            [''/d/20100102-ESACCI-L3C_SST-SSTskin-AVHRR_MERGED-fv01.0.nc''])] \<and>
        out_store out =
          [''/d,esacci.SST.day.L3C.SSTskin.AVHRR.Envisat.AVHRR_MERGED.2-1.r1'',
           ''/d,esacci.SST.day.L3C.SSTskin.AVHRR.Envisat.AVHRR_MERGED.2.r1''])"
  by code_simp

end
